theory Spec2Isabelle
  imports Complex_Main "HOL-Library.AList" "HOL-Library.Sublist"
begin

text \<open>
  A model of the front end of the analytics application: the API service, the export
  dialogue, the filter panel, and the page made of \<^verbatim>\<open>App\<close>, \<^verbatim>\<open>FileUpload\<close> and
  \<^verbatim>\<open>DataTable\<close>. Component state is a record and a handler is a function on it. An
  asynchronous handler is cut at its \<^verbatim>\<open>await\<close>: the part before it issues a request that
  is kept among the outstanding ones, and the part after it runs when the request
  settles, with the outcome of the request as an argument. Requests settle in any order.
  Row counts and page numbers are integers, cell values are strings, and a filter object
  is the list of its entries in insertion order.
\<close>

section \<open>JavaScript values used by the front end\<close>

text \<open>
  A thrown JavaScript value is either an \<^verbatim>\<open>Error\<close> instance carrying its message or some
  other value. Every \<^verbatim>\<open>catch\<close> block of the application reads it with
  \<^verbatim>\<open>error instanceof Error ? error.message : fallback\<close>.
\<close>

datatype js_exn = JsError string | JsThrown

fun catch_message :: "string \<Rightarrow> js_exn \<Rightarrow> string" where
  "catch_message fallback (JsError m) = m"
| "catch_message fallback JsThrown = fallback"

text \<open>A JavaScript number as the export dialogue meets it: an integer or \<^verbatim>\<open>NaN\<close>.\<close>

datatype js_num = NaN | Num int

text \<open>Truthiness of a string: only the empty string is falsy.\<close>

definition truthy :: "string \<Rightarrow> bool" where
  "truthy s = (s \<noteq> [])"

text \<open>\<^verbatim>\<open>x || undefined\<close> on a number: \<^verbatim>\<open>NaN\<close> and \<^verbatim>\<open>0\<close> are falsy.\<close>

fun or_undefined :: "js_num \<Rightarrow> js_num option" where
  "or_undefined NaN = None"
| "or_undefined (Num n) = (if n = 0 then None else Some (Num n))"

text \<open>\<^verbatim>\<open>x || d\<close> on a number with a numeric default.\<close>

fun or_default :: "js_num \<Rightarrow> int \<Rightarrow> js_num" where
  "or_default NaN d = Num d"
| "or_default (Num n) d = (if n = 0 then Num d else Num n)"

text \<open>\<^verbatim>\<open>x > c\<close> and \<^verbatim>\<open>Math.min(x, c)\<close>: a comparison with \<^verbatim>\<open>NaN\<close> is false, a minimum
  with \<^verbatim>\<open>NaN\<close> is \<^verbatim>\<open>NaN\<close>.\<close>

fun js_gt :: "js_num \<Rightarrow> int \<Rightarrow> bool" where
  "js_gt NaN c = False"
| "js_gt (Num n) c = (n > c)"

fun js_min :: "js_num \<Rightarrow> int \<Rightarrow> js_num" where
  "js_min NaN c = NaN"
| "js_min (Num n) c = Num (min n c)"

subsection \<open>\<^verbatim>\<open>parseInt\<close> with no radix argument\<close>

text \<open>
  White space is the six ASCII white-space characters (JavaScript also strips others,
  such as the no-break space), and the digits are read as an exact integer (JavaScript
  rounds to a double above \<open>2^53\<close>). The value of a number input has neither.
\<close>

definition is_space :: "char \<Rightarrow> bool" where
  "is_space c = (c \<in> set [CHR '' '', CHR 0x09, CHR 0x0A, CHR 0x0B, CHR 0x0C, CHR 0x0D])"

definition dec_digit :: "char \<Rightarrow> nat option" where
  "dec_digit c = (let n = (of_char c :: nat) in
     if 48 \<le> n \<and> n \<le> 57 then Some (n - 48) else None)"

definition hex_digit :: "char \<Rightarrow> nat option" where
  "hex_digit c = (let n = (of_char c :: nat) in
     if 48 \<le> n \<and> n \<le> 57 then Some (n - 48)
     else if 97 \<le> n \<and> n \<le> 102 then Some (n - 87)
     else if 65 \<le> n \<and> n \<le> 70 then Some (n - 55)
     else None)"

text \<open>The longest prefix of digits, read in the radix; \<open>None\<close> when there is no digit.\<close>

fun digits_from :: "(char \<Rightarrow> nat option) \<Rightarrow> nat \<Rightarrow> nat option \<Rightarrow> string \<Rightarrow> nat option" where
  "digits_from dig radix acc [] = acc"
| "digits_from dig radix acc (c # cs) =
     (case dig c of
        None \<Rightarrow> acc
      | Some d \<Rightarrow> digits_from dig radix
          (Some ((case acc of None \<Rightarrow> 0 | Some a \<Rightarrow> a) * radix + d)) cs)"

definition parse_magnitude :: "string \<Rightarrow> nat option" where
  "parse_magnitude s =
     (case s of
        a # b # rest \<Rightarrow>
          if a = CHR ''0'' \<and> (b = CHR ''x'' \<or> b = CHR ''X'')
          then digits_from hex_digit 16 None rest
          else digits_from dec_digit 10 None s
      | _ \<Rightarrow> digits_from dec_digit 10 None s)"

definition parseInt :: "string \<Rightarrow> js_num" where
  "parseInt input =
     (let s = dropWhile is_space input;
          neg = (s \<noteq> [] \<and> hd s = CHR ''-'');
          body = (if s \<noteq> [] \<and> (hd s = CHR ''-'' \<or> hd s = CHR ''+'') then tl s else s)
      in case parse_magnitude body of
           None \<Rightarrow> NaN
         | Some n \<Rightarrow> Num (if neg then - int n else int n))"

subsection \<open>Decimal rendering of a status code\<close>

function string_of_nat :: "nat \<Rightarrow> string" where
  "string_of_nat n =
     (if n < 10 then [''0123456789'' ! n]
      else string_of_nat (n div 10) @ [''0123456789'' ! (n mod 10)])"
  by pat_completeness auto
termination
  by (relation "measure id") auto

section \<open>The API service (\<^verbatim>\<open>services/api.ts\<close>)\<close>

type_synonym row = "(string \<times> string) list"

type_synonym ColumnFilters = "(string \<times> string list) list"

record DataResponse =
  dr_data :: "row list"
  dr_columns :: "string list"
  dr_total_rows :: int

record LoadParquetResponse =
  lp_message :: string
  lp_rows :: int

record ParquetFile =
  pf_name :: string
  pf_path :: string
  pf_relative_path :: string
  pf_size :: int
  pf_modified :: int

record ColumnValuesResponse =
  cv_column :: string
  cv_values :: "string list"
  cv_count :: int

record FilteredDataResponse =
  fd_data :: "row list"
  fd_columns :: "string list"
  fd_total_rows :: int
  fd_filtered_rows :: int
  fd_filters_applied :: bool

record 'a ApiResponse =
  api_data :: "'a option"
  api_error :: "string option"

record ExportResult =
  ex_success :: bool
  ex_error :: "string option"

text \<open>
  What the network can answer to one \<^verbatim>\<open>fetch\<close>: the promise rejects; or a response
  arrives with \<^verbatim>\<open>ok\<close> set, whose body is then read (\<^verbatim>\<open>json()\<close> or \<^verbatim>\<open>blob()\<close>, which may
  reject); or a response arrives with \<^verbatim>\<open>ok\<close> unset, with its status, status text and the
  outcome of reading its body as the error payload. An error payload is \<^verbatim>\<open>null\<close>, and
  reading its \<^verbatim>\<open>detail\<close> throws a \<^verbatim>\<open>TypeError\<close> whose message is the engine's; or it is a
  value whose \<^verbatim>\<open>detail\<close> is absent or is some JSON value. Of a JSON value the service uses
  its truthiness and its conversion to a string only: a string is truthy when it is not
  empty and converts to itself; any other value comes with both (an empty array is truthy
  and converts to the empty string, the number 0 is falsy and converts to \<^verbatim>\<open>0\<close>).
\<close>

datatype json_value = JsonString string | JsonOther bool string

fun json_truthy :: "json_value \<Rightarrow> bool" where
  "json_truthy (JsonString s) = truthy s"
| "json_truthy (JsonOther b s) = b"

fun json_to_string :: "json_value \<Rightarrow> string" where
  "json_to_string (JsonString s) = s"
| "json_to_string (JsonOther b s) = s"

datatype 'a body_result = BodyReject js_exn | BodyValue 'a

datatype error_body = ErrBodyNull string | ErrBody "json_value option"

datatype 'a fetch_outcome =
    NetworkFailure js_exn
  | HttpOk "'a body_result"
  | HttpFail nat string "error_body body_result"

text \<open>A computation that may throw: \<open>Inl\<close> is the thrown value.\<close>

type_synonym 'a js_result = "js_exn + 'a"

definition http_status_line :: "nat \<Rightarrow> string \<Rightarrow> string" where
  "http_status_line status statusText = ''HTTP '' @ string_of_nat status @ '': '' @ statusText"

text \<open>The message of \<^verbatim>\<open>new Error(errorData.detail || `HTTP ${response.status}:
  ${response.statusText}`)\<close>: the conversion to a string of the detail when it is truthy,
  of the status line otherwise.\<close>

fun detail_or :: "error_body \<Rightarrow> string \<Rightarrow> string js_result" where
  "detail_or (ErrBodyNull typeErrorMessage) fallback = Inl (JsError typeErrorMessage)"
| "detail_or (ErrBody None) fallback = Inr fallback"
| "detail_or (ErrBody (Some d)) fallback =
     Inr (if json_truthy d then json_to_string d else fallback)"

text \<open>
  The body of the \<^verbatim>\<open>try\<close> block that \<^verbatim>\<open>loadParquet\<close>, \<^verbatim>\<open>getData\<close>, \<^verbatim>\<open>getParquetFiles\<close>,
  \<^verbatim>\<open>getColumnValues\<close> and \<^verbatim>\<open>getFilteredData\<close> repeat word for word after building their
  request.
\<close>

fun json_try :: "'a fetch_outcome \<Rightarrow> ('a ApiResponse) js_result" where
  "json_try (NetworkFailure e) = Inl e"
| "json_try (HttpFail status statusText (BodyReject e)) = Inl e"
| "json_try (HttpFail status statusText (BodyValue errorData)) =
     (case detail_or errorData (http_status_line status statusText) of
        Inl e \<Rightarrow> Inl e
      | Inr m \<Rightarrow> Inl (JsError m))"
| "json_try (HttpOk (BodyReject e)) = Inl e"
| "json_try (HttpOk (BodyValue d)) = Inr \<lparr>api_data = Some d, api_error = None\<rparr>"

text \<open>\<^verbatim>\<open>checkHealth\<close> does not read the body of a response that is not OK.\<close>

fun checkHealth_try :: "'a fetch_outcome \<Rightarrow> ('a ApiResponse) js_result" where
  "checkHealth_try (NetworkFailure e) = Inl e"
| "checkHealth_try (HttpFail status statusText b) = Inl (JsError (http_status_line status statusText))"
| "checkHealth_try (HttpOk (BodyReject e)) = Inl e"
| "checkHealth_try (HttpOk (BodyValue d)) = Inr \<lparr>api_data = Some d, api_error = None\<rparr>"

text \<open>The \<^verbatim>\<open>try\<close> block of \<^verbatim>\<open>exportCSV\<close> and \<^verbatim>\<open>exportExcel\<close>; \<open>BodyReject\<close> stands for
  \<^verbatim>\<open>blob()\<close> or one of the download steps throwing.\<close>

fun export_try :: "unit fetch_outcome \<Rightarrow> ExportResult js_result" where
  "export_try (NetworkFailure e) = Inl e"
| "export_try (HttpFail status statusText (BodyReject e)) = Inl e"
| "export_try (HttpFail status statusText (BodyValue errorData)) =
     (case detail_or errorData (http_status_line status statusText) of
        Inl e \<Rightarrow> Inl e
      | Inr m \<Rightarrow> Inl (JsError m))"
| "export_try (HttpOk (BodyReject e)) = Inl e"
| "export_try (HttpOk (BodyValue u)) = Inr \<lparr>ex_success = True, ex_error = None\<rparr>"

text \<open>The two \<^verbatim>\<open>catch\<close> blocks.\<close>

fun catch_api :: "('a ApiResponse) js_result \<Rightarrow> ('a ApiResponse) js_result" where
  "catch_api (Inl e) = Inr \<lparr>api_data = None, api_error = Some (catch_message ''Unknown error'' e)\<rparr>"
| "catch_api (Inr r) = Inr r"

fun catch_export :: "ExportResult js_result \<Rightarrow> ExportResult js_result" where
  "catch_export (Inl e) =
     Inr \<lparr>ex_success = False, ex_error = Some (catch_message ''Unknown error'' e)\<rparr>"
| "catch_export (Inr r) = Inr r"

text \<open>The query string of a request, as the parameters appended to it.\<close>

record query =
  q_limit :: "js_num option"
  q_offset :: "int option"
  q_filters :: "ColumnFilters option"

text \<open>\<^verbatim>\<open>Object.keys(filters).length > 0\<close> decides whether \<^verbatim>\<open>filters\<close> is sent.\<close>

definition filters_param :: "ColumnFilters \<Rightarrow> ColumnFilters option" where
  "filters_param fs = (if length (map fst fs) > 0 then Some fs else None)"

definition getFilteredData_query :: "int \<Rightarrow> int \<Rightarrow> ColumnFilters \<Rightarrow> query" where
  "getFilteredData_query limit offset fs =
     \<lparr>q_limit = Some (Num limit), q_offset = Some offset, q_filters = filters_param fs\<rparr>"

definition export_query :: "js_num option \<Rightarrow> int option \<Rightarrow> ColumnFilters option \<Rightarrow> query" where
  "export_query limit offset fs =
     \<lparr>q_limit = limit, q_offset = offset,
      q_filters = (case fs of None \<Rightarrow> None | Some f \<Rightarrow> filters_param f)\<rparr>"

text \<open>The methods: the outcome of the one \<^verbatim>\<open>fetch\<close> each performs is an argument.\<close>

definition checkHealth :: "string fetch_outcome \<Rightarrow> (string ApiResponse) js_result" where
  "checkHealth out = catch_api (checkHealth_try out)"

definition loadParquet ::
  "string \<Rightarrow> LoadParquetResponse fetch_outcome \<Rightarrow> (LoadParquetResponse ApiResponse) js_result" where
  "loadParquet filePath out = catch_api (json_try out)"

definition getData ::
  "int \<Rightarrow> int \<Rightarrow> DataResponse fetch_outcome \<Rightarrow> (DataResponse ApiResponse) js_result" where
  "getData limit offset out = catch_api (json_try out)"

definition getParquetFiles ::
  "(ParquetFile list) fetch_outcome \<Rightarrow> ((ParquetFile list) ApiResponse) js_result" where
  "getParquetFiles out = catch_api (json_try out)"

definition getColumnValues ::
  "string \<Rightarrow> ColumnValuesResponse fetch_outcome \<Rightarrow> (ColumnValuesResponse ApiResponse) js_result" where
  "getColumnValues columnName out = catch_api (json_try out)"

definition getFilteredData ::
  "int \<Rightarrow> int \<Rightarrow> ColumnFilters \<Rightarrow> FilteredDataResponse fetch_outcome
     \<Rightarrow> (FilteredDataResponse ApiResponse) js_result" where
  "getFilteredData limit offset fs out = catch_api (json_try out)"

definition exportCSV ::
  "js_num option \<Rightarrow> int option \<Rightarrow> ColumnFilters option \<Rightarrow> unit fetch_outcome
     \<Rightarrow> ExportResult js_result" where
  "exportCSV limit offset fs out = catch_export (export_try out)"

definition exportExcel ::
  "js_num option \<Rightarrow> int option \<Rightarrow> ColumnFilters option \<Rightarrow> unit fetch_outcome
     \<Rightarrow> ExportResult js_result" where
  "exportExcel limit offset fs out = catch_export (export_try out)"

text \<open>A fetch fails when the promise rejects, the status is not OK, or the body cannot be
  read.\<close>

fun fetch_failed :: "'a fetch_outcome \<Rightarrow> bool" where
  "fetch_failed (HttpOk (BodyValue d)) = False"
| "fetch_failed out = True"

section \<open>The export dialogue (\<^verbatim>\<open>ExportButton\<close>)\<close>

datatype export_format = Csv | Excel

record ExportButton =
  showOptions :: bool
  exportLimit :: string
  customLimit :: string
  showWarning :: bool

definition ExportButton_init :: ExportButton where
  "ExportButton_init =
     \<lparr>showOptions = False, exportLimit = ''all'', customLimit = [], showWarning = False\<rparr>"

definition EXCEL_MAX_ROWS :: int where
  "EXCEL_MAX_ROWS = 1048575"

text \<open>The values of the five radio buttons that set \<^verbatim>\<open>exportLimit\<close>.\<close>

datatype export_limit_choice = AllRows | Rows10000 | Rows100000 | Rows1000000 | Custom

fun radio_value :: "export_limit_choice \<Rightarrow> string" where
  "radio_value AllRows = ''all''"
| "radio_value Rows10000 = ''10000''"
| "radio_value Rows100000 = ''100000''"
| "radio_value Rows1000000 = ''1000000''"
| "radio_value Custom = ''custom''"

text \<open>The \<^verbatim>\<open>limit\<close> that \<^verbatim>\<open>handleExport\<close> computes first; \<open>None\<close> is \<^verbatim>\<open>undefined\<close>.\<close>

definition export_limit :: "ExportButton \<Rightarrow> js_num option" where
  "export_limit b =
     (if exportLimit b = ''all'' then None
      else if exportLimit b = ''custom'' then or_undefined (parseInt (customLimit b))
      else Some (parseInt (exportLimit b)))"

text \<open>A call of the \<^verbatim>\<open>onExport\<close> property.\<close>

datatype export_call = ExportCall export_format "js_num option"

text \<open>\<^verbatim>\<open>ExportButton.handleExport\<close>: the new state of the dialogue and the call of
  \<^verbatim>\<open>onExport\<close> it makes, if any. The first argument says whether the optional property
  \<^verbatim>\<open>onExport\<close> was given.\<close>

definition ExportButton_handleExport ::
  "bool \<Rightarrow> int \<Rightarrow> ExportButton \<Rightarrow> export_format \<Rightarrow> ExportButton \<times> export_call option" where
  "ExportButton_handleExport onExport_given totalRows b format =
     (let limit = export_limit b in
      if format = Excel \<and> totalRows > EXCEL_MAX_ROWS
         \<and> (case limit of None \<Rightarrow> True | Some l \<Rightarrow> js_gt l EXCEL_MAX_ROWS)
      then (b\<lparr>showWarning := True\<rparr>, None)
      else if \<not> onExport_given then (b, None)
      else (b\<lparr>showOptions := False, showWarning := False\<rparr>, Some (ExportCall format limit)))"

definition getEffectiveRows :: "int \<Rightarrow> ExportButton \<Rightarrow> js_num" where
  "getEffectiveRows totalRows b =
     (if exportLimit b = ''all'' then Num totalRows
      else if exportLimit b = ''custom''
      then js_min (or_default (parseInt (customLimit b)) totalRows) totalRows
      else js_min (parseInt (exportLimit b)) totalRows)"

definition willExceedExcelLimit :: "int \<Rightarrow> ExportButton \<Rightarrow> bool" where
  "willExceedExcelLimit totalRows b = js_gt (getEffectiveRows totalRows b) EXCEL_MAX_ROWS"

text \<open>The three buttons of the warning modal.\<close>

definition warning_export_csv ::
  "bool \<Rightarrow> int \<Rightarrow> ExportButton \<Rightarrow> ExportButton \<times> export_call option" where
  "warning_export_csv onExport_given totalRows b =
     ExportButton_handleExport onExport_given totalRows b Csv"

definition warning_export_excel :: "bool \<Rightarrow> ExportButton \<Rightarrow> ExportButton \<times> export_call option" where
  "warning_export_excel onExport_given b =
     (b\<lparr>showWarning := False, showOptions := False\<rparr>,
      if onExport_given then Some (ExportCall Excel (Some (Num EXCEL_MAX_ROWS))) else None)"

definition warning_cancel :: "ExportButton \<Rightarrow> ExportButton" where
  "warning_cancel b = b\<lparr>showWarning := False\<rparr>"

section \<open>The filter panel (\<^verbatim>\<open>ColumnSlicer\<close> and \<^verbatim>\<open>SlicerPanel\<close>)\<close>

text \<open>\<^verbatim>\<open>Array.from(new Set(xs))\<close>: the first occurrence of each element, in order.\<close>

fun dedupe :: "'a list \<Rightarrow> 'a list" where
  "dedupe [] = []"
| "dedupe (x # xs) = x # dedupe (filter (\<lambda>y. y \<noteq> x) xs)"

text \<open>The four handlers of a column's slicer compute a new selection from the selected
  values and, for two of them, the values the search box currently lets through.\<close>

definition handleValueToggle :: "string list \<Rightarrow> string \<Rightarrow> string list" where
  "handleValueToggle selectedValues v =
     (if v \<in> set selectedValues then filter (\<lambda>w. w \<noteq> v) selectedValues
      else selectedValues @ [v])"

definition handleSelectAll :: "string list \<Rightarrow> string list \<Rightarrow> string list" where
  "handleSelectAll selectedValues filteredValues = dedupe (selectedValues @ filteredValues)"

definition handleDeselectAll :: "string list \<Rightarrow> string list \<Rightarrow> string list" where
  "handleDeselectAll selectedValues filteredValues =
     filter (\<lambda>v. v \<notin> set filteredValues) selectedValues"

definition handleClearAll :: "string list" where
  "handleClearAll = []"

datatype slicer_action =
    ToggleValue string
  | SelectAll "string list"
  | DeselectAll "string list"
  | ClearAll

text \<open>
  \<^verbatim>\<open>filters[columnName] || []\<close>, the selection handed to a column's slicer. The filters
  are an object: the lookup finds the array of an own key, and for a column that is named
  like a member of \<^verbatim>\<open>Object.prototype\<close> and is no own key it finds that member, which is
  truthy and no array (\<open>None\<close>).
\<close>

definition object_prototype_members :: "string list" where
  "object_prototype_members =
     [''constructor'', ''__proto__'', ''hasOwnProperty'', ''isPrototypeOf'',
      ''propertyIsEnumerable'', ''toLocaleString'', ''toString'', ''valueOf'',
      ''__defineGetter__'', ''__defineSetter__'', ''__lookupGetter__'', ''__lookupSetter__'']"

definition selected_values :: "ColumnFilters \<Rightarrow> string \<Rightarrow> string list option" where
  "selected_values fs columnName =
     (case map_of fs columnName of
        Some vs \<Rightarrow> Some vs
      | None \<Rightarrow> if columnName \<in> set object_prototype_members then None else Some [])"

text \<open>The selection a slicer hands to \<^verbatim>\<open>onSelectionChange\<close>. On a selection that is no
  array the first three handlers throw a \<^verbatim>\<open>TypeError\<close> before they call it (\<open>None\<close>);
  \<^verbatim>\<open>handleClearAll\<close> does not read the selection.\<close>

fun slicer_selection :: "string list option \<Rightarrow> slicer_action \<Rightarrow> string list option" where
  "slicer_selection selection ClearAll = Some handleClearAll"
| "slicer_selection None a = None"
| "slicer_selection (Some selectedValues) (ToggleValue v) =
     Some (handleValueToggle selectedValues v)"
| "slicer_selection (Some selectedValues) (SelectAll fv) =
     Some (handleSelectAll selectedValues fv)"
| "slicer_selection (Some selectedValues) (DeselectAll fv) =
     Some (handleDeselectAll selectedValues fv)"

text \<open>
  \<^verbatim>\<open>SlicerPanel.handleColumnFilterChange\<close> returns the object it hands to
  \<^verbatim>\<open>onFiltersChange\<close>: a copy of the own entries of the filters with the key deleted or
  assigned. The list holds the entries in the order of their assignment: assigning keeps
  the place of a key that is present and appends one that is not. (JavaScript lists keys
  that look like array indices first; that changes the order of the entries in the JSON
  text of a request, not the entries.)
\<close>

definition handleColumnFilterChange :: "ColumnFilters \<Rightarrow> string \<Rightarrow> string list \<Rightarrow> ColumnFilters" where
  "handleColumnFilterChange fs columnName selectedValues =
     (if length selectedValues = 0 then AList.delete columnName fs
      else AList.update columnName selectedValues fs)"

definition handleClearAllFilters :: ColumnFilters where
  "handleClearAllFilters = []"

text \<open>
  What makes a filter object well formed. Its keys are distinct and every key maps to a
  list of values that is not empty; and, for a column list, every key is a column of the
  list.
\<close>

definition constrained :: "ColumnFilters \<Rightarrow> bool" where
  "constrained fs = (distinct (map fst fs) \<and> list_all (\<lambda>(k, vs). vs \<noteq> []) fs)"

definition keys_among :: "string list \<Rightarrow> ColumnFilters \<Rightarrow> bool" where
  "keys_among columns fs = list_all (\<lambda>(k, vs). k \<in> set columns) fs"

section \<open>The application: \<^verbatim>\<open>App\<close>, \<^verbatim>\<open>FileUpload\<close> and \<^verbatim>\<open>DataTable\<close>\<close>

text \<open>The state of a mounted \<^verbatim>\<open>DataTable\<close>: its six \<^verbatim>\<open>useState\<close> cells and the state of
  the export dialogue it renders.\<close>

record DataTable =
  dt_data :: "row list"
  currentPage :: int
  pageSize :: int
  dt_loading :: bool
  filters :: ColumnFilters
  filteredRows :: int
  exportButton :: ExportButton

text \<open>A call of \<^verbatim>\<open>apiService.getFilteredData\<close> that has not settled: its arguments, the
  \<^verbatim>\<open>page\<close> its continuation holds, and the table instance whose setters the continuation
  holds.\<close>

record fetch_request =
  fr_instance :: nat
  fr_page :: int
  fr_limit :: int
  fr_offset :: int
  fr_filters :: ColumnFilters

text \<open>A call of \<^verbatim>\<open>apiService.exportCSV\<close> or \<^verbatim>\<open>apiService.exportExcel\<close>.\<close>

record export_request =
  er_format :: export_format
  er_limit :: "js_num option"
  er_offset :: "int option"
  er_filters :: "ColumnFilters option"

text \<open>
  The whole page. \<open>table\<close> is the state of the \<^verbatim>\<open>DataTable\<close> while one is mounted and
  \<open>mount_count\<close> counts the mounts, so that a continuation of an earlier instance is told
  from one of the present instance. The last four fields are the asynchronous calls: the
  targets of the loads, the fetches and the exports that have not settled, and every
  export request sent so far.
\<close>

record App =
  app_data :: "DataResponse option"
  app_loading :: bool
  app_error :: "string option"
  filePath :: string
  table :: "DataTable option"
  mount_count :: nat
  pending_loads :: "string list"
  pending_fetches :: "fetch_request list"
  pending_exports :: "export_request list"
  sent_exports :: "export_request list"

definition App_init :: App where
  "App_init =
     \<lparr>app_data = None, app_loading = False, app_error = None, filePath = [], table = None,
      mount_count = 0, pending_loads = [], pending_fetches = [], pending_exports = [],
      sent_exports = []\<rparr>"

text \<open>The initial values of the \<^verbatim>\<open>useState\<close> cells of a table mounted on a response.\<close>

definition DataTable_mount :: "DataResponse \<Rightarrow> DataTable" where
  "DataTable_mount d =
     \<lparr>dt_data = dr_data d, currentPage = 1, pageSize = 100, dt_loading = False, filters = [],
      filteredRows = dr_total_rows d, exportButton = ExportButton_init\<rparr>"

text \<open>The effect of the table, run when \<^verbatim>\<open>initialData\<close>, \<^verbatim>\<open>totalRows\<close> or \<^verbatim>\<open>filters\<close>
  changes.\<close>

definition DataTable_effect :: "DataResponse \<Rightarrow> DataTable \<Rightarrow> DataTable" where
  "DataTable_effect d t =
     (if length (map fst (filters t)) = 0
      then t\<lparr>dt_data := dr_data d, filteredRows := dr_total_rows d\<rparr>
      else t)"

text \<open>\<^verbatim>\<open>{data && !loading && <DataTable ... />}\<close>: the table is unmounted, and its state
  lost, when the condition fails; it is mounted afresh when the condition holds again.\<close>

definition render :: "App \<Rightarrow> App" where
  "render s =
     (case app_data s of
        None \<Rightarrow> s\<lparr>table := None\<rparr>
      | Some d \<Rightarrow>
          if app_loading s then s\<lparr>table := None\<rparr>
          else (case table s of
                  None \<Rightarrow> s\<lparr>table := Some (DataTable_mount d), mount_count := mount_count s + 1\<rparr>
                | Some t \<Rightarrow> s))"

subsection \<open>\<^verbatim>\<open>App\<close>\<close>

text \<open>New data under a table that stays mounted changes its properties, which runs its
  effect.\<close>

definition handleDataLoaded :: "DataResponse \<Rightarrow> App \<Rightarrow> App" where
  "handleDataLoaded response s =
     s\<lparr>app_data := Some response, app_error := None,
       table := map_option (DataTable_effect response) (table s)\<rparr>"

definition handleError :: "string \<Rightarrow> App \<Rightarrow> App" where
  "handleError errorMessage s = s\<lparr>app_error := Some errorMessage, app_data := None\<rparr>"

definition clearData :: "App \<Rightarrow> App" where
  "clearData s = s\<lparr>app_data := None, app_error := None\<rparr>"

subsection \<open>\<^verbatim>\<open>FileUpload\<close>\<close>

definition trim :: "string \<Rightarrow> string" where
  "trim s = rev (dropWhile is_space (rev (dropWhile is_space s)))"

text \<open>\<^verbatim>\<open>if (response.error) throw new Error(response.error)\<close>.\<close>

fun throw_if_error :: "string option \<Rightarrow> unit js_result" where
  "throw_if_error None = Inr ()"
| "throw_if_error (Some m) = (if truthy m then Inl (JsError m) else Inr ())"

text \<open>\<^verbatim>\<open>handleLoadFile\<close> up to its first \<^verbatim>\<open>await\<close>.\<close>

definition handleLoadFile :: "string option \<Rightarrow> App \<Rightarrow> App" where
  "handleLoadFile path s =
     (let targetPath = (case path of
                          None \<Rightarrow> trim (filePath s)
                        | Some p \<Rightarrow> if truthy p then p else trim (filePath s))
      in if \<not> truthy targetPath then handleError ''Please select or enter a file path'' s
         else s\<lparr>app_loading := True, pending_loads := pending_loads s @ [targetPath]\<rparr>)"

text \<open>The rest of \<^verbatim>\<open>handleLoadFile\<close>, given the outcomes of the two requests it awaits. No
  state is written between the two, so they settle in one step.\<close>

definition handleLoadFile_try ::
  "string \<Rightarrow> LoadParquetResponse fetch_outcome \<Rightarrow> DataResponse fetch_outcome \<Rightarrow> App
     \<Rightarrow> App js_result" where
  "handleLoadFile_try targetPath out1 out2 s =
     (case loadParquet targetPath out1 of
        Inl e \<Rightarrow> Inl e
      | Inr loadResponse \<Rightarrow>
          (case throw_if_error (api_error loadResponse) of
             Inl e \<Rightarrow> Inl e
           | Inr u \<Rightarrow>
               (case getData 1000 0 out2 of
                  Inl e \<Rightarrow> Inl e
                | Inr dataResponse \<Rightarrow>
                    (case throw_if_error (api_error dataResponse) of
                       Inl e \<Rightarrow> Inl e
                     | Inr u \<Rightarrow>
                         (case api_data dataResponse of
                            None \<Rightarrow> Inr s
                          | Some d \<Rightarrow> Inr (handleDataLoaded d s))))))"

definition handleLoadFile_settle ::
  "string \<Rightarrow> LoadParquetResponse fetch_outcome \<Rightarrow> DataResponse fetch_outcome \<Rightarrow> App \<Rightarrow> App" where
  "handleLoadFile_settle targetPath out1 out2 s =
     (let s' = (case handleLoadFile_try targetPath out1 out2 s of
                  Inl e \<Rightarrow> handleError (catch_message ''Unknown error occurred'' e) s
                | Inr s1 \<Rightarrow> s1)
      in s'\<lparr>app_loading := False\<rparr>)"

subsection \<open>\<^verbatim>\<open>DataTable\<close>\<close>

text \<open>\<^verbatim>\<open>Math.ceil(filteredRows / pageSize)\<close>.\<close>

definition totalPages :: "DataTable \<Rightarrow> int" where
  "totalPages t = \<lceil>real_of_int (filteredRows t) / real_of_int (pageSize t)\<rceil>"

text \<open>A setter of a table instance acts on that instance only; on an instance that is no
  longer mounted it does nothing.\<close>

definition on_instance :: "nat \<Rightarrow> (DataTable \<Rightarrow> DataTable) \<Rightarrow> App \<Rightarrow> App" where
  "on_instance i f s = (if mount_count s = i then s\<lparr>table := map_option f (table s)\<rparr> else s)"

text \<open>\<^verbatim>\<open>loadPage\<close> up to its \<^verbatim>\<open>await\<close>.\<close>

definition loadPage :: "int \<Rightarrow> int \<Rightarrow> ColumnFilters \<Rightarrow> App \<Rightarrow> App" where
  "loadPage page sz currentFilters s =
     (let offset = (page - 1) * sz in
      s\<lparr>table := map_option (\<lambda>t. t\<lparr>dt_loading := True\<rparr>) (table s),
        pending_fetches := pending_fetches s @
          [\<lparr>fr_instance = mount_count s, fr_page = page, fr_limit = sz, fr_offset = offset,
            fr_filters = currentFilters\<rparr>]\<rparr>)"

text \<open>The rest of \<^verbatim>\<open>loadPage\<close>, given the outcome of the request.\<close>

definition loadPage_try :: "fetch_request \<Rightarrow> FilteredDataResponse fetch_outcome \<Rightarrow> App \<Rightarrow> App js_result" where
  "loadPage_try r out s =
     (case getFilteredData (fr_limit r) (fr_offset r) (fr_filters r) out of
        Inl e \<Rightarrow> Inl e
      | Inr response \<Rightarrow>
          (case throw_if_error (api_error response) of
             Inl e \<Rightarrow> Inl e
           | Inr u \<Rightarrow>
               (case api_data response of
                  None \<Rightarrow> Inr s
                | Some d \<Rightarrow>
                    Inr (on_instance (fr_instance r)
                          (\<lambda>t. t\<lparr>dt_data := fd_data d, currentPage := fr_page r,
                                 filteredRows := fd_filtered_rows d\<rparr>) s))))"

definition loadPage_settle :: "fetch_request \<Rightarrow> FilteredDataResponse fetch_outcome \<Rightarrow> App \<Rightarrow> App" where
  "loadPage_settle r out s =
     (let s' = (case loadPage_try r out s of
                  Inl e \<Rightarrow> handleError (catch_message ''Failed to load data'' e) s
                | Inr s1 \<Rightarrow> s1)
      in on_instance (fr_instance r) (\<lambda>t. t\<lparr>dt_loading := False\<rparr>) s')"

definition handlePageChange :: "int \<Rightarrow> App \<Rightarrow> App" where
  "handlePageChange page s =
     (case table s of
        None \<Rightarrow> s
      | Some t \<Rightarrow>
          if page \<ge> 1 \<and> page \<le> totalPages t \<and> page \<noteq> currentPage t
          then loadPage page (pageSize t) (filters t) s
          else s)"

definition handlePageSizeChange :: "int \<Rightarrow> App \<Rightarrow> App" where
  "handlePageSizeChange sz s =
     (case table s of
        None \<Rightarrow> s
      | Some t \<Rightarrow> loadPage 1 sz (filters t) (s\<lparr>table := Some (t\<lparr>pageSize := sz\<rparr>)\<rparr>))"

text \<open>The new filters are a new object, so the effect of the table runs after the
  handler.\<close>

definition handleFiltersChange :: "ColumnFilters \<Rightarrow> App \<Rightarrow> App" where
  "handleFiltersChange newFilters s =
     (case table s of
        None \<Rightarrow> s
      | Some t \<Rightarrow>
          (let s1 = loadPage 1 (pageSize t) newFilters
                      (s\<lparr>table := Some (t\<lparr>filters := newFilters, currentPage := 1\<rparr>)\<rparr>)
           in case app_data s of
                None \<Rightarrow> s1
              | Some d \<Rightarrow> s1\<lparr>table := map_option (DataTable_effect d) (table s1)\<rparr>))"

text \<open>\<^verbatim>\<open>DataTable.handleExport\<close> up to its \<^verbatim>\<open>await\<close>, and its continuation.\<close>

definition DataTable_handleExport :: "export_format \<Rightarrow> js_num option \<Rightarrow> App \<Rightarrow> App" where
  "DataTable_handleExport format limit s =
     (case table s of
        None \<Rightarrow> s
      | Some t \<Rightarrow>
          (let r = \<lparr>er_format = format, er_limit = limit, er_offset = Some 0,
                    er_filters = Some (filters t)\<rparr>
           in s\<lparr>pending_exports := pending_exports s @ [r],
                sent_exports := sent_exports s @ [r]\<rparr>))"

definition export_request_query :: "export_request \<Rightarrow> query" where
  "export_request_query r = export_query (er_limit r) (er_offset r) (er_filters r)"

definition handleExport_settle :: "export_request \<Rightarrow> unit fetch_outcome \<Rightarrow> App \<Rightarrow> App" where
  "handleExport_settle r out s =
     (case (if er_format r = Csv
            then exportCSV (er_limit r) (er_offset r) (er_filters r) out
            else exportExcel (er_limit r) (er_offset r) (er_filters r) out) of
        Inl e \<Rightarrow> handleError (''Export failed: '' @ catch_message ''Unknown error'' e) s
      | Inr result \<Rightarrow>
          (case ex_error result of
             None \<Rightarrow> s
           | Some m \<Rightarrow>
               if \<not> ex_success result \<and> truthy m
               then handleError (''Export failed: '' @ m) s
               else s))"

text \<open>The export dialogue lives in the table: it is given the filtered row count as
  \<^verbatim>\<open>totalRows\<close> and \<^verbatim>\<open>DataTable.handleExport\<close> as \<^verbatim>\<open>onExport\<close>.\<close>

definition with_export_button ::
  "(int \<Rightarrow> ExportButton \<Rightarrow> ExportButton \<times> export_call option) \<Rightarrow> App \<Rightarrow> App" where
  "with_export_button h s =
     (case table s of
        None \<Rightarrow> s
      | Some t \<Rightarrow>
          (case h (filteredRows t) (exportButton t) of
             (b, None) \<Rightarrow> s\<lparr>table := Some (t\<lparr>exportButton := b\<rparr>)\<rparr>
           | (b, Some (ExportCall format limit)) \<Rightarrow>
               DataTable_handleExport format limit (s\<lparr>table := Some (t\<lparr>exportButton := b\<rparr>)\<rparr>)))"

definition remove_nth :: "nat \<Rightarrow> 'a list \<Rightarrow> 'a list" where
  "remove_nth i xs = take i xs @ drop (Suc i) xs"

subsection \<open>Events\<close>

datatype page_size_choice = Rows50 | Rows100 | Rows500 | Rows1000

fun page_size_value :: "page_size_choice \<Rightarrow> int" where
  "page_size_value Rows50 = 50"
| "page_size_value Rows100 = 100"
| "page_size_value Rows500 = 500"
| "page_size_value Rows1000 = 1000"

text \<open>
  What can happen to the page: a click or an input of the user, or one of the requests in
  flight settling with some outcome. A request settles by its place among those that
  have not settled, so requests may settle in any order.
\<close>

datatype event =
    SetFilePath string
  | LoadFile "string option"
  | FileSelect string
  | LoadSettled nat "LoadParquetResponse fetch_outcome" "DataResponse fetch_outcome"
  | ClearData
  | PageChange int
  | PageSizeChange page_size_choice
  | Slicer string slicer_action
  | RemoveFilter string
  | ClearAllFilters
  | FetchSettled nat "FilteredDataResponse fetch_outcome"
  | ToggleExportOptions
  | SetExportLimit export_limit_choice
  | SetCustomLimit string
  | ClickExport export_format
  | WarningCsv
  | WarningExcel
  | WarningCancel
  | ExportSettled nat "unit fetch_outcome"

text \<open>The handler an event runs. Selecting a file in the browser sets the path and calls
  \<^verbatim>\<open>handleLoadFile\<close> in the same handler, which still reads the path of the last
  render. A control that is not on the page cannot be used: the
  table's controls need a mounted table, a slicer exists for a column of the table, a
  remove button for a key of the filters, the radio buttons and export buttons while the
  options are open, the modal's buttons while the warning is shown, and the clear button
  while an error is shown. A button's \<^verbatim>\<open>disabled\<close> attribute is not modelled: the
  handlers of the slicers are taken to run from every state. A slicer handler that
  throws leaves the state as it is.\<close>

fun handle :: "event \<Rightarrow> App \<Rightarrow> App" where
  "handle (SetFilePath p) s = s\<lparr>filePath := p\<rparr>"
| "handle (LoadFile path) s = handleLoadFile path s"
| "handle (FileSelect p) s = (handleLoadFile (Some p) s)\<lparr>filePath := p\<rparr>"
| "handle (LoadSettled i out1 out2) s =
     (if i < length (pending_loads s)
      then handleLoadFile_settle (pending_loads s ! i) out1 out2
             (s\<lparr>pending_loads := remove_nth i (pending_loads s)\<rparr>)
      else s)"
| "handle ClearData s =
     (case app_error s of None \<Rightarrow> s | Some m \<Rightarrow> if truthy m then clearData s else s)"
| "handle (PageChange page) s = handlePageChange page s"
| "handle (PageSizeChange c) s = handlePageSizeChange (page_size_value c) s"
| "handle (Slicer c a) s =
     (case (table s, app_data s) of
        (Some t, Some d) \<Rightarrow>
          if c \<in> set (dr_columns d)
          then (case slicer_selection (selected_values (filters t) c) a of
                  None \<Rightarrow> s
                | Some selection \<Rightarrow>
                    handleFiltersChange (handleColumnFilterChange (filters t) c selection) s)
          else s
      | _ \<Rightarrow> s)"
| "handle (RemoveFilter c) s =
     (case table s of
        None \<Rightarrow> s
      | Some t \<Rightarrow>
          if c \<in> set (map fst (filters t))
          then handleFiltersChange (handleColumnFilterChange (filters t) c []) s
          else s)"
| "handle ClearAllFilters s = handleFiltersChange handleClearAllFilters s"
| "handle (FetchSettled i out) s =
     (if i < length (pending_fetches s)
      then loadPage_settle (pending_fetches s ! i) out
             (s\<lparr>pending_fetches := remove_nth i (pending_fetches s)\<rparr>)
      else s)"
| "handle ToggleExportOptions s =
     with_export_button (\<lambda>n b. (b\<lparr>showOptions := \<not> showOptions b\<rparr>, None)) s"
| "handle (SetExportLimit c) s =
     with_export_button
       (\<lambda>n b. (if showOptions b then b\<lparr>exportLimit := radio_value c\<rparr> else b, None)) s"
| "handle (SetCustomLimit v) s =
     with_export_button
       (\<lambda>n b. (if showOptions b \<and> exportLimit b = ''custom'' then b\<lparr>customLimit := v\<rparr> else b,
               None)) s"
| "handle (ClickExport format) s =
     with_export_button
       (\<lambda>n b. if showOptions b then ExportButton_handleExport True n b format else (b, None)) s"
| "handle WarningCsv s =
     with_export_button
       (\<lambda>n b. if showWarning b then warning_export_csv True n b else (b, None)) s"
| "handle WarningExcel s =
     with_export_button
       (\<lambda>n b. if showWarning b then warning_export_excel True b else (b, None)) s"
| "handle WarningCancel s =
     with_export_button (\<lambda>n b. (if showWarning b then warning_cancel b else b, None)) s"
| "handle (ExportSettled i out) s =
     (if i < length (pending_exports s)
      then handleExport_settle (pending_exports s ! i) out
             (s\<lparr>pending_exports := remove_nth i (pending_exports s)\<rparr>)
      else s)"

text \<open>One step: the handler, then the page is rendered.\<close>

definition step :: "event \<Rightarrow> App \<Rightarrow> App" where
  "step e s = render (handle e s)"

fun run :: "App \<Rightarrow> event list \<Rightarrow> App" where
  "run s [] = s"
| "run s (e # es) = run (step e s) es"

fun is_LoadSettled :: "event \<Rightarrow> bool" where
  "is_LoadSettled (LoadSettled i out1 out2) = True"
| "is_LoadSettled e = False"

text \<open>A run in which no load settles while a table is mounted: the data, and with them
  the column list, are never replaced under a mounted table.\<close>

fun loads_settle_unmounted :: "App \<Rightarrow> event list \<Rightarrow> bool" where
  "loads_settle_unmounted s [] = True"
| "loads_settle_unmounted s (e # es) =
     ((if is_LoadSettled e then table s = None else True)
      \<and> loads_settle_unmounted (step e s) es)"

text \<open>The filters of the table, while one is mounted; and a property of them that holds
  trivially while none is.\<close>

definition table_filters :: "App \<Rightarrow> ColumnFilters option" where
  "table_filters s = map_option filters (table s)"

fun holds :: "('a \<Rightarrow> bool) \<Rightarrow> 'a option \<Rightarrow> bool" where
  "holds P None = True"
| "holds P (Some x) = P x"

text \<open>The keys of the filters of the table are columns of the data of the page.\<close>

definition keys_inv :: "App \<Rightarrow> bool" where
  "keys_inv s =
     (case app_data s of
        None \<Rightarrow> True
      | Some d \<Rightarrow> holds (keys_among (dr_columns d)) (table_filters s))"

section \<open>Concrete states and inputs used in the examples\<close>

text \<open>The dialogue with the custom option selected and a limit of two million typed, and
  the same with a limit of zero typed.\<close>

definition big_custom :: ExportButton where
  "big_custom =
     \<lparr>showOptions = True, exportLimit = ''custom'', customLimit = ''2000000'',
      showWarning = False\<rparr>"

definition zero_custom :: ExportButton where
  "zero_custom =
     \<lparr>showOptions = True, exportLimit = ''custom'', customLimit = ''0'', showWarning = False\<rparr>"

text \<open>The five rows of the sales scenario, a response to loading them, and the responses
  to filtering them on the region.\<close>

definition sales_row :: "string \<Rightarrow> string \<Rightarrow> row" where
  "sales_row region amount = [(''region'', region), (''amount'', amount)]"

definition east_rows :: "row list" where
  "east_rows = [sales_row ''east'' ''10'', sales_row ''east'' ''20'']"

definition west_rows :: "row list" where
  "west_rows = [sales_row ''west'' ''5'', sales_row ''west'' ''7'']"

definition sales_data :: DataResponse where
  "sales_data =
     \<lparr>dr_data = east_rows @ west_rows @ [sales_row ''north'' ''1''],
      dr_columns = [''region'', ''amount''], dr_total_rows = 5\<rparr>"

definition load_ok :: "LoadParquetResponse fetch_outcome" where
  "load_ok = HttpOk (BodyValue \<lparr>lp_message = ''loaded'', lp_rows = 5\<rparr>)"

definition east_response :: FilteredDataResponse where
  "east_response = \<lparr>fd_data = east_rows, fd_columns = [''region'', ''amount''], fd_total_rows = 5,
     fd_filtered_rows = 2, fd_filters_applied = True\<rparr>"

definition east_west_response :: FilteredDataResponse where
  "east_west_response = \<lparr>fd_data = east_rows @ west_rows, fd_columns = [''region'', ''amount''],
     fd_total_rows = 5, fd_filtered_rows = 4, fd_filters_applied = True\<rparr>"

text \<open>Two filter changes in a row, whose fetches are both outstanding; then the second
  fetch settles before the first.\<close>

definition two_filter_changes :: "event list" where
  "two_filter_changes =
     [FileSelect ''sales.parquet'',
      LoadSettled 0 load_ok (HttpOk (BodyValue sales_data)),
      Slicer ''region'' (ToggleValue ''east''),
      Slicer ''region'' (ToggleValue ''west'')]"

definition stale_trace :: "event list" where
  "stale_trace = two_filter_changes @
     [FetchSettled 1 (HttpOk (BodyValue east_west_response)),
      FetchSettled 0 (HttpOk (BodyValue east_response))]"

text \<open>A data set of 250 rows, one with another column list, and a page of filtered rows of
  the first.\<close>

definition wide_data :: DataResponse where
  "wide_data = \<lparr>dr_data = east_rows, dr_columns = [''region'', ''amount''], dr_total_rows = 250\<rparr>"

definition city_data :: DataResponse where
  "city_data =
     \<lparr>dr_data = [(''city'', ''Oslo'') # []], dr_columns = [''city''], dr_total_rows = 7\<rparr>"

definition east_page :: FilteredDataResponse where
  "east_page = \<lparr>fd_data = east_rows, fd_columns = [''region'', ''amount''], fd_total_rows = 250,
     fd_filtered_rows = 150, fd_filters_applied = True\<rparr>"

definition wide_load :: "event list" where
  "wide_load =
     [FileSelect ''a.parquet'', LoadSettled 0 load_ok (HttpOk (BodyValue wide_data))]"


definition east_filtered :: "event list" where
  "east_filtered =
     [FileSelect ''sales.parquet'',
      LoadSettled 0 load_ok (HttpOk (BodyValue sales_data)),
      Slicer ''region'' (ToggleValue ''east''),
      FetchSettled 0 (HttpOk (BodyValue east_response))]"

text \<open>Two files are selected one after the other. The first load settles, the user
  filters and turns to page 2, and then the second load settles.\<close>

definition overlapping_loads :: "event list" where
  "overlapping_loads =
     [FileSelect ''a.parquet'',
      FileSelect ''b.parquet'',
      LoadSettled 0 load_ok (HttpOk (BodyValue wide_data)),
      Slicer ''region'' (ToggleValue ''east''),
      FetchSettled 0 (HttpOk (BodyValue east_page)),
      PageChange 2,
      FetchSettled 0 (HttpOk (BodyValue east_page)),
      LoadSettled 0 load_ok (HttpOk (BodyValue city_data))]"

text \<open>A fetch of page 2 is outstanding when the filter is changed; the fetch of the filter
  change settles first, the fetch of page 2 last, with the second page of the unfiltered
  rows.\<close>

definition unfiltered_page_two :: FilteredDataResponse where
  "unfiltered_page_two = \<lparr>fd_data = west_rows, fd_columns = [''region'', ''amount''],
     fd_total_rows = 250, fd_filtered_rows = 250, fd_filters_applied = False\<rparr>"

definition stale_page_trace :: "event list" where
  "stale_page_trace = wide_load @
     [PageChange 2,
      Slicer ''region'' (ToggleValue ''east''),
      FetchSettled 1 (HttpOk (BodyValue east_page)),
      FetchSettled 0 (HttpOk (BodyValue unfiltered_page_two))]"

text \<open>After the two overlapping loads, a value is selected in the slicer of the one column
  of the second file.\<close>

definition city_after_region :: "event list" where
  "city_after_region = overlapping_loads @ [Slicer ''city'' (ToggleValue ''Oslo'')]"


text \<open>The page size of a mounted table is positive.\<close>

fun positive_page_size :: "DataTable option \<Rightarrow> bool" where
  "positive_page_size None = True"
| "positive_page_size (Some t) = (0 < pageSize t)"

section \<open>Properties of the API service\<close>

lemma json_try_failed: "fetch_failed out \<Longrightarrow> \<exists>e. json_try out = Inl e"
  by (induction out rule: json_try.induct) (auto split: sum.splits)

lemma checkHealth_try_failed: "fetch_failed out \<Longrightarrow> \<exists>e. checkHealth_try out = Inl e"
  by (induction out rule: checkHealth_try.induct) auto

lemma export_try_cases:
  "(\<exists>e. export_try out = Inl e) \<or> export_try out = Inr \<lparr>ex_success = True, ex_error = None\<rparr>"
  by (induction out rule: export_try.induct) (auto split: sum.splits)

lemma export_try_failed: "fetch_failed out \<Longrightarrow> \<exists>e. export_try out = Inl e"
  by (induction out rule: export_try.induct) (auto split: sum.splits)

lemma catch_api_value:
  "\<exists>r. catch_api x = Inr r \<and> ((\<exists>e. x = Inl e) \<longrightarrow> api_data r = None \<and> (\<exists>m. api_error r = Some m))"
  by (cases x) auto

lemma catch_export_value:
  "\<exists>r. catch_export x = Inr r \<and> ((\<exists>e. x = Inl e) \<longrightarrow> \<not> ex_success r \<and> (\<exists>m. ex_error r = Some m))"
  by (cases x) auto

lemma api_method_value:
  "\<exists>r. catch_api (json_try out) = Inr r \<and> (fetch_failed out \<longrightarrow> api_data r = None \<and> (\<exists>m. api_error r = Some m))"
  using catch_api_value [of "json_try out"] json_try_failed [of out] by blast

lemma export_method_value:
  "\<exists>r. catch_export (export_try out) = Inr r \<and> (fetch_failed out \<longrightarrow> \<not> ex_success r \<and> (\<exists>m. ex_error r = Some m))"
  using catch_export_value [of "export_try out"] export_try_failed [of out] by blast

text \<open>
  Claim C9. Every method of the API service is total with respect to failures: whatever
  its arguments and whatever the outcome of its request (the network fails, the status is
  not OK, the body cannot be read), the method returns a value and does not throw; and
  when the request failed, the value returned is the failure: no data and an error
  message, or, for the two exports, \<^verbatim>\<open>success: false\<close> and an error message.
\<close>

theorem apiService_returns_failures_as_values:
  "(\<exists>r. checkHealth o1 = Inr r \<and> (fetch_failed o1 \<longrightarrow> api_data r = None \<and> (\<exists>m. api_error r = Some m)))
   \<and> (\<exists>r. loadParquet path o2 = Inr r \<and> (fetch_failed o2 \<longrightarrow> api_data r = None \<and> (\<exists>m. api_error r = Some m)))
   \<and> (\<exists>r. getData limit offset o3 = Inr r \<and> (fetch_failed o3 \<longrightarrow> api_data r = None \<and> (\<exists>m. api_error r = Some m)))
   \<and> (\<exists>r. getParquetFiles o4 = Inr r \<and> (fetch_failed o4 \<longrightarrow> api_data r = None \<and> (\<exists>m. api_error r = Some m)))
   \<and> (\<exists>r. getColumnValues columnName o5 = Inr r \<and> (fetch_failed o5 \<longrightarrow> api_data r = None \<and> (\<exists>m. api_error r = Some m)))
   \<and> (\<exists>r. getFilteredData limit' offset' fs o6 = Inr r \<and> (fetch_failed o6 \<longrightarrow> api_data r = None \<and> (\<exists>m. api_error r = Some m)))
   \<and> (\<exists>r. exportCSV l1 f1 fs1 o7 = Inr r \<and> (fetch_failed o7 \<longrightarrow> \<not> ex_success r \<and> (\<exists>m. ex_error r = Some m)))
   \<and> (\<exists>r. exportExcel l2 f2 fs2 o8 = Inr r \<and> (fetch_failed o8 \<longrightarrow> \<not> ex_success r \<and> (\<exists>m. ex_error r = Some m)))"
proof -
  have h: "\<exists>r. checkHealth o1 = Inr r \<and> (fetch_failed o1 \<longrightarrow> api_data r = None \<and> (\<exists>m. api_error r = Some m))"
    unfolding checkHealth_def
    using catch_api_value [of "checkHealth_try o1"] checkHealth_try_failed [of o1] by blast
  show ?thesis
    unfolding loadParquet_def getData_def getParquetFiles_def getColumnValues_def
      getFilteredData_def exportCSV_def exportExcel_def
    by (intro conjI h api_method_value export_method_value)
qed

theorem apiService_returns_failures_as_values_witness:
  "fetch_failed (HttpFail 500 ''Internal Server Error'' (BodyValue (ErrBodyNull ''Cannot read properties of null'')) :: string fetch_outcome)
   \<and> (\<exists>r. checkHealth (HttpFail 500 ''Internal Server Error'' (BodyValue (ErrBodyNull ''Cannot read properties of null''))) = Inr r
          \<and> api_data r = None \<and> api_error r = Some ''HTTP 500: Internal Server Error'')
   \<and> fetch_failed (HttpFail 404 ''Not Found'' (BodyValue (ErrBody (Some (JsonString ''No data loaded'')))) :: DataResponse fetch_outcome)
   \<and> (\<exists>r. getData 1000 0 (HttpFail 404 ''Not Found'' (BodyValue (ErrBody (Some (JsonString ''No data loaded''))))) = Inr r
          \<and> api_data r = None \<and> api_error r = Some ''No data loaded'')
   \<and> fetch_failed (NetworkFailure (JsError ''Failed to fetch'') :: FilteredDataResponse fetch_outcome)
   \<and> (\<exists>r. getFilteredData 100 0 [] (NetworkFailure (JsError ''Failed to fetch'')) = Inr r
          \<and> api_data r = None \<and> api_error r = Some ''Failed to fetch'')
   \<and> fetch_failed (HttpOk (BodyReject (JsError ''Unexpected token'')) :: unit fetch_outcome)
   \<and> (\<exists>r. exportExcel None (Some 0) None (HttpOk (BodyReject (JsError ''Unexpected token''))) = Inr r
          \<and> \<not> ex_success r \<and> ex_error r = Some ''Unexpected token'')"
  using apiService_returns_failures_as_values
    [of "HttpFail 500 ''Internal Server Error'' (BodyValue (ErrBodyNull ''Cannot read properties of null''))"
        "''a''" "NetworkFailure JsThrown"
        1000 0 "HttpFail 404 ''Not Found'' (BodyValue (ErrBody (Some (JsonString ''No data loaded''))))"
        "NetworkFailure JsThrown" "''c''" "NetworkFailure JsThrown"
        100 0 "[]" "NetworkFailure (JsError ''Failed to fetch'')"
        None None None "NetworkFailure JsThrown"
        None "Some 0" None "HttpOk (BodyReject (JsError ''Unexpected token''))"]
  by (simp add: checkHealth_def getData_def getFilteredData_def exportExcel_def
      http_status_line_def truthy_def)

section \<open>Properties of the export dialogue\<close>

lemmas parse_simps = parseInt_def parse_magnitude_def is_space_def dec_digit_def

lemma excel_guard_iff:
  "(totalRows > EXCEL_MAX_ROWS
      \<and> (case export_limit b of None \<Rightarrow> True | Some l \<Rightarrow> js_gt l EXCEL_MAX_ROWS))
   = js_gt (js_min (case export_limit b of None \<Rightarrow> Num totalRows | Some l \<Rightarrow> l) totalRows)
       EXCEL_MAX_ROWS"
  by (cases "parseInt (customLimit b)"; cases "parseInt (exportLimit b)")
     (auto simp: export_limit_def)

lemma getEffectiveRows_eq:
  "getEffectiveRows totalRows b =
     js_min (case export_limit b of None \<Rightarrow> Num totalRows | Some l \<Rightarrow> l) totalRows"
  by (cases "parseInt (customLimit b)"; cases "parseInt (exportLimit b)")
     (auto simp: export_limit_def getEffectiveRows_def)

text \<open>
  Claim C2, as amended. For an Excel export of \<open>totalRows\<close> filtered rows with the limit
  the dialogue computes, the rows the export would hold are the requested limit (the
  filtered row count when there is none) cut down to the filtered row count. When they
  exceed 1,048,575, \<^verbatim>\<open>handleExport\<close> issues no export and raises the warning, and the
  Excel export the warning offers is issued with the limit 1,048,575 exactly. Otherwise
  the export is issued with the limit as requested. The dialogue's own
  \<^verbatim>\<open>willExceedExcelLimit\<close> is that same test.
\<close>

theorem excel_export_row_cap:
  "ExportButton_handleExport True totalRows b Excel =
     (if js_gt (js_min (case export_limit b of None \<Rightarrow> Num totalRows | Some l \<Rightarrow> l) totalRows)
           1048575
      then (b\<lparr>showWarning := True\<rparr>, None)
      else (b\<lparr>showOptions := False, showWarning := False\<rparr>,
            Some (ExportCall Excel (export_limit b))))
   \<and> warning_export_excel True b =
       (b\<lparr>showWarning := False, showOptions := False\<rparr>,
        Some (ExportCall Excel (Some (Num 1048575))))
   \<and> willExceedExcelLimit totalRows b =
       js_gt (js_min (case export_limit b of None \<Rightarrow> Num totalRows | Some l \<Rightarrow> l) totalRows)
         1048575"
proof -
  have g: "js_gt (js_min (case export_limit b of None \<Rightarrow> Num totalRows | Some l \<Rightarrow> l) totalRows)
           1048575 = (totalRows > EXCEL_MAX_ROWS
      \<and> (case export_limit b of None \<Rightarrow> True | Some l \<Rightarrow> js_gt l EXCEL_MAX_ROWS))"
    using excel_guard_iff [of totalRows b] by (simp add: EXCEL_MAX_ROWS_def)
  show ?thesis
    unfolding g willExceedExcelLimit_def getEffectiveRows_eq
    using excel_guard_iff [of totalRows b]
    by (simp add: ExportButton_handleExport_def warning_export_excel_def EXCEL_MAX_ROWS_def Let_def)
qed

text \<open>The scenario of the specification: two million rows requested of two million
  filtered rows.\<close>

theorem excel_export_row_cap_witness:
  "ExportButton_handleExport True 2000000 big_custom Excel = (big_custom\<lparr>showWarning := True\<rparr>, None)
   \<and> warning_export_excel True (big_custom\<lparr>showWarning := True\<rparr>) =
       (big_custom\<lparr>showWarning := False, showOptions := False\<rparr>, Some (ExportCall Excel (Some (Num 1048575))))
   \<and> willExceedExcelLimit 2000000 big_custom"
  using excel_export_row_cap [of 2000000 big_custom] excel_export_row_cap [of 2000000 "big_custom\<lparr>showWarning := True\<rparr>"]
  by (simp add: big_custom_def export_limit_def parse_simps)

text \<open>
  Claim C2 as stated fails: with 500 filtered rows and a custom limit of 2,000,000, the
  Excel export is issued with the limit 2,000,000, not with the minimum of that and
  1,048,575, and no warning is raised.
\<close>

theorem excel_limit_above_cap_passed_through:
  "ExportButton_handleExport True 500 big_custom Excel =
     (big_custom\<lparr>showOptions := False, showWarning := False\<rparr>, Some (ExportCall Excel (Some (Num 2000000))))
   \<and> export_limit big_custom = Some (Num 2000000)
   \<and> min (2000000 :: int) EXCEL_MAX_ROWS = 1048575
   \<and> \<not> showWarning (fst (ExportButton_handleExport True 500 big_custom Excel))"
  by (simp add: ExportButton_handleExport_def big_custom_def export_limit_def parse_simps EXCEL_MAX_ROWS_def)

text \<open>
  Claim C10, as amended. When the custom option is selected and the typed value parses to
  0 or to \<^verbatim>\<open>NaN\<close>, the limit \<^verbatim>\<open>handleExport\<close> computes is \<^verbatim>\<open>undefined\<close>, never 0. The
  export is then issued with no limit, and its request carries no \<^verbatim>\<open>limit\<close> parameter,
  unless the format is Excel and the filtered rows exceed 1,048,575: then the warning is
  raised and \<^verbatim>\<open>handleExport\<close> issues nothing.
\<close>

theorem custom_limit_zero_or_NaN:
  assumes "exportLimit b = ''custom''"
    and "parseInt (customLimit b) = NaN \<or> parseInt (customLimit b) = Num 0"
  shows "export_limit b = None
    \<and> ExportButton_handleExport True totalRows b format =
        (if format = Excel \<and> totalRows > 1048575 then (b\<lparr>showWarning := True\<rparr>, None)
         else (b\<lparr>showOptions := False, showWarning := False\<rparr>, Some (ExportCall format None)))
    \<and> q_limit (export_request_query
         \<lparr>er_format = format, er_limit = None, er_offset = Some 0, er_filters = Some fs\<rparr>) = None"
proof -
  have l: "export_limit b = None"
    using assms by (auto simp: export_limit_def)
  show ?thesis
    by (simp add: l ExportButton_handleExport_def EXCEL_MAX_ROWS_def export_request_query_def export_query_def)
qed

theorem custom_limit_zero_or_NaN_witness:
  "exportLimit zero_custom = ''custom''
   \<and> parseInt (customLimit zero_custom) = Num 0
   \<and> ExportButton_handleExport True 500 zero_custom Csv =
       (zero_custom\<lparr>showOptions := False, showWarning := False\<rparr>, Some (ExportCall Csv None))"
proof -
  have a: "exportLimit zero_custom = ''custom''" by (simp add: zero_custom_def)
  have b: "parseInt (customLimit zero_custom) = Num 0" by (simp add: zero_custom_def parse_simps)
  from custom_limit_zero_or_NaN [OF a disjI2 [OF b], of 500 Csv] a b show ?thesis by simp
qed

text \<open>
  Claim C10 as stated fails: with the custom option selected, a typed 0 and two million
  filtered rows, \<^verbatim>\<open>handleExport\<close> for Excel issues no export at all.
\<close>

theorem custom_limit_zero_excel_not_issued:
  "exportLimit zero_custom = ''custom''
   \<and> parseInt (customLimit zero_custom) = Num 0
   \<and> ExportButton_handleExport True 2000000 zero_custom Excel = (zero_custom\<lparr>showWarning := True\<rparr>, None)"
  by (simp add: ExportButton_handleExport_def zero_custom_def export_limit_def parse_simps EXCEL_MAX_ROWS_def)

section \<open>What a handler leaves unchanged\<close>

lemma render_frame [simp]:
  "sent_exports (render s) = sent_exports s"
  "app_loading (render s) = app_loading s"
  "pending_loads (render s) = pending_loads s"
  "app_data (render s) = app_data s"
  "app_error (render s) = app_error s"
  "pending_fetches (render s) = pending_fetches s"
  by (simp_all add: render_def split: option.splits)

lemma render_loading [simp]: "app_loading s \<Longrightarrow> table (render s) = None"
  by (simp add: render_def split: option.splits)

lemma render_no_data [simp]: "app_data s = None \<Longrightarrow> table (render s) = None"
  by (simp add: render_def)

lemma render_mounted [simp]:
  "app_data s = Some d \<Longrightarrow> \<not> app_loading s \<Longrightarrow> table s = Some t \<Longrightarrow> render s = s"
  by (simp add: render_def)

lemma render_mounts [simp]:
  "app_data s = Some d \<Longrightarrow> \<not> app_loading s \<Longrightarrow> table s = None \<Longrightarrow>
   table (render s) = Some (DataTable_mount d)"
  by (simp add: render_def)

lemma handleError_frame [simp]:
  "sent_exports (handleError m s) = sent_exports s"
  "app_loading (handleError m s) = app_loading s"
  "pending_loads (handleError m s) = pending_loads s"
  by (simp_all add: handleError_def)

lemma on_instance_frame [simp]:
  "sent_exports (on_instance i f s) = sent_exports s"
  "app_loading (on_instance i f s) = app_loading s"
  "pending_loads (on_instance i f s) = pending_loads s"
  "app_data (on_instance i f s) = app_data s"
  "app_error (on_instance i f s) = app_error s"
  by (simp_all add: on_instance_def)

lemma loadPage_frame [simp]:
  "sent_exports (loadPage p z f s) = sent_exports s"
  "app_loading (loadPage p z f s) = app_loading s"
  "pending_loads (loadPage p z f s) = pending_loads s"
  "app_data (loadPage p z f s) = app_data s"
  by (simp_all add: loadPage_def Let_def)

lemma loadPage_try_frame:
  "loadPage_try r out s = Inr s' \<Longrightarrow>
   sent_exports s' = sent_exports s \<and> app_loading s' = app_loading s
   \<and> pending_loads s' = pending_loads s"
  by (auto simp: loadPage_try_def split: sum.splits option.splits)

lemma loadPage_settle_frame [simp]:
  "sent_exports (loadPage_settle r out s) = sent_exports s"
  "app_loading (loadPage_settle r out s) = app_loading s"
  "pending_loads (loadPage_settle r out s) = pending_loads s"
  using loadPage_try_frame [of r out s]
  by (auto simp: loadPage_settle_def Let_def split: sum.splits)

lemma handlePageChange_frame [simp]:
  "sent_exports (handlePageChange p s) = sent_exports s"
  "app_loading (handlePageChange p s) = app_loading s"
  "pending_loads (handlePageChange p s) = pending_loads s"
  by (simp_all add: handlePageChange_def split: option.splits)

lemma handlePageSizeChange_frame [simp]:
  "sent_exports (handlePageSizeChange z s) = sent_exports s"
  "app_loading (handlePageSizeChange z s) = app_loading s"
  "pending_loads (handlePageSizeChange z s) = pending_loads s"
  by (simp_all add: handlePageSizeChange_def split: option.splits)

lemma handleFiltersChange_frame [simp]:
  "sent_exports (handleFiltersChange nf s) = sent_exports s"
  "app_loading (handleFiltersChange nf s) = app_loading s"
  "pending_loads (handleFiltersChange nf s) = pending_loads s"
  by (simp_all add: handleFiltersChange_def Let_def split: option.splits)

lemma handleExport_settle_frame [simp]:
  "sent_exports (handleExport_settle r out s) = sent_exports s"
  "app_loading (handleExport_settle r out s) = app_loading s"
  "pending_loads (handleExport_settle r out s) = pending_loads s"
  by (simp_all add: handleExport_settle_def split: sum.splits option.splits)

lemma DataTable_handleExport_frame [simp]:
  "prefix (sent_exports s) (sent_exports (DataTable_handleExport fmt l s))"
  "app_loading (DataTable_handleExport fmt l s) = app_loading s"
  "pending_loads (DataTable_handleExport fmt l s) = pending_loads s"
  by (simp_all add: DataTable_handleExport_def Let_def split: option.splits)

lemma with_export_button_frame [simp]:
  "prefix (sent_exports s) (sent_exports (with_export_button h s))"
  "app_loading (with_export_button h s) = app_loading s"
  "pending_loads (with_export_button h s) = pending_loads s"
proof -
  have a: "prefix (sent_exports s) (sent_exports (DataTable_handleExport fmt l (s\<lparr>table := x\<rparr>)))"
    for fmt l x
    using DataTable_handleExport_frame(1) [of "s\<lparr>table := x\<rparr>" fmt l] by simp
  show "prefix (sent_exports s) (sent_exports (with_export_button h s))"
    using a by (simp add: with_export_button_def split: option.splits prod.splits export_call.splits)
  show "app_loading (with_export_button h s) = app_loading s"
    by (simp add: with_export_button_def split: option.splits prod.splits export_call.splits)
  show "pending_loads (with_export_button h s) = pending_loads s"
    by (simp add: with_export_button_def split: option.splits prod.splits export_call.splits)
qed

lemma handleLoadFile_exports [simp]:
  "sent_exports (handleLoadFile p s) = sent_exports s"
  by (simp add: handleLoadFile_def Let_def)

lemma handleLoadFile_try_exports:
  "handleLoadFile_try p o1 o2 s = Inr s' \<Longrightarrow> sent_exports s' = sent_exports s"
  by (auto simp: handleLoadFile_try_def handleDataLoaded_def split: sum.splits option.splits)

lemma handleLoadFile_settle_exports [simp]:
  "sent_exports (handleLoadFile_settle p o1 o2 s) = sent_exports s"
  using handleLoadFile_try_exports [of p o1 o2 s]
  by (auto simp: handleLoadFile_settle_def Let_def split: sum.splits)

lemma handle_sent_exports: "prefix (sent_exports s) (sent_exports (handle e s))"
  by (cases e) (simp_all add: clearData_def split: option.splits prod.splits)

lemma step_sent_exports: "prefix (sent_exports s) (sent_exports (step e s))"
  by (simp add: step_def handle_sent_exports)

lemma run_sent_exports: "prefix (sent_exports s) (sent_exports (run s es))"
proof (induction es arbitrary: s)
  case Nil
  show ?case by simp
next
  case (Cons e es)
  have "prefix (sent_exports s) (sent_exports (step e s))" by (rule step_sent_exports)
  also have "prefix (sent_exports (step e s)) (sent_exports (run (step e s) es))" by (rule Cons.IH)
  finally show ?case by simp
qed

section \<open>Fetches that settle\<close>

text \<open>
  Claim C1, as amended. For every mounted table, the result of every fetch of that table
  that settles successfully is applied to the displayed rows, the page and the filtered
  row count, whichever place the request has among the outstanding ones: also when a
  later request was issued in the meantime. The last fetch to settle wins, not the last
  one issued; no result is discarded.
\<close>

theorem every_settled_fetch_is_applied:
  assumes "table s = Some t" and "app_data s = Some d" and "\<not> app_loading s"
    and "i < length (pending_fetches s)"
    and "fr_instance (pending_fetches s ! i) = mount_count s"
  shows "table (step (FetchSettled i (HttpOk (BodyValue response))) s) =
           Some (t\<lparr>dt_data := fd_data response, currentPage := fr_page (pending_fetches s ! i),
                   filteredRows := fd_filtered_rows response, dt_loading := False\<rparr>)"
proof -
  let ?s' = "handle (FetchSettled i (HttpOk (BodyValue response))) s"
  have h: "table ?s' = Some (t\<lparr>dt_data := fd_data response, currentPage := fr_page (pending_fetches s ! i),
                   filteredRows := fd_filtered_rows response, dt_loading := False\<rparr>)"
    and "app_data ?s' = Some d" and "\<not> app_loading ?s'"
    using assms
    by (simp_all add: loadPage_settle_def loadPage_try_def getFilteredData_def on_instance_def)
  then show ?thesis
    by (simp add: step_def)
qed

text \<open>The first of two outstanding fetches settles and is applied.\<close>

theorem every_settled_fetch_is_applied_witness:
  "length (pending_fetches (run App_init two_filter_changes)) = 2
   \<and> fr_filters (pending_fetches (run App_init two_filter_changes) ! 0) = [(''region'', [''east''])]
   \<and> fr_filters (pending_fetches (run App_init two_filter_changes) ! 1)
       = [(''region'', [''east'', ''west''])]
   \<and> map_option dt_data
        (table (step (FetchSettled 0 (HttpOk (BodyValue east_response)))
                  (run App_init two_filter_changes))) = Some east_rows
   \<and> map_option filteredRows
        (table (step (FetchSettled 0 (HttpOk (BodyValue east_response)))
                  (run App_init two_filter_changes))) = Some 2"
proof -
  let ?s = "run App_init two_filter_changes"
  have "table ?s \<noteq> None" by code_simp
  then obtain t where t: "table ?s = Some t" by auto
  have d: "app_data ?s = Some sales_data" by code_simp
  have l: "\<not> app_loading ?s" by code_simp
  have n: "length (pending_fetches ?s) = 2" by code_simp
  then have i: "0 < length (pending_fetches ?s)" by simp
  have m: "fr_instance (pending_fetches ?s ! 0) = mount_count ?s" by code_simp
  have f: "fr_filters (pending_fetches ?s ! 0) = [(''region'', [''east''])]"
    "fr_filters (pending_fetches ?s ! 1) = [(''region'', [''east'', ''west''])]"
    by code_simp+
  from every_settled_fetch_is_applied [OF t d l i m, of east_response] n f show ?thesis
    by (simp add: east_response_def)
qed

text \<open>
  Claim C1 as stated fails: the filter is changed twice, the second fetch settles, then
  the first. The table ends showing the rows and the row count of the first request
  under the filters of the second.
\<close>

theorem stale_result_overwrites_newer:
  "stale_trace = two_filter_changes @
     [FetchSettled 1 (HttpOk (BodyValue east_west_response)),
      FetchSettled 0 (HttpOk (BodyValue east_response))]
   \<and> map_option filters (table (run App_init stale_trace)) = Some [(''region'', [''east'', ''west''])]
   \<and> map_option dt_data (table (run App_init stale_trace)) = Some (fd_data east_response)
   \<and> map_option filteredRows (table (run App_init stale_trace)) = Some (fd_filtered_rows east_response)
   \<and> fd_data east_response \<noteq> fd_data east_west_response
   \<and> fd_filtered_rows east_response \<noteq> fd_filtered_rows east_west_response"
  by code_simp

section \<open>Filter changes\<close>

text \<open>
  Claim C3, as amended. A filter change sets the page to 1 together with the new filters,
  hides the rows behind the loading indicator, and issues one fetch with the new filters
  and offset 0, whose \<^verbatim>\<open>filters\<close> parameter is the new filters (no parameter when they are
  empty); when that fetch settles next, the table shows its rows as page 1 under the new
  filters.
\<close>

theorem filter_change_resets_page:
  assumes "table s = Some t"
  shows "\<exists>t'. table (handleFiltersChange newFilters s) = Some t'
           \<and> currentPage t' = 1 \<and> filters t' = newFilters \<and> dt_loading t'
           \<and> pending_fetches (handleFiltersChange newFilters s) = pending_fetches s @
               [\<lparr>fr_instance = mount_count s, fr_page = 1, fr_limit = pageSize t, fr_offset = 0,
                 fr_filters = newFilters\<rparr>]
           \<and> getFilteredData_query (pageSize t) 0 newFilters =
               \<lparr>q_limit = Some (Num (pageSize t)), q_offset = Some 0,
                q_filters = (if newFilters = [] then None else Some newFilters)\<rparr>
           \<and> table (loadPage_settle
                 \<lparr>fr_instance = mount_count s, fr_page = 1, fr_limit = pageSize t, fr_offset = 0,
                  fr_filters = newFilters\<rparr>
                 (HttpOk (BodyValue response)) (handleFiltersChange newFilters s))
               = Some (t'\<lparr>dt_data := fd_data response, currentPage := 1,
                         filteredRows := fd_filtered_rows response, dt_loading := False\<rparr>)"
  using assms
  by (cases "app_data s")
     (simp_all add: handleFiltersChange_def loadPage_def Let_def DataTable_effect_def
        getFilteredData_query_def filters_param_def loadPage_settle_def loadPage_try_def
        getFilteredData_def on_instance_def)

theorem filter_change_resets_page_witness:
  "table (run App_init wide_load) = Some (DataTable_mount wide_data)
   \<and> map_option currentPage
        (table (handleFiltersChange [(''region'', [''east''])] (run App_init wide_load))) = Some 1
   \<and> map_option filters
        (table (handleFiltersChange [(''region'', [''east''])] (run App_init wide_load)))
       = Some [(''region'', [''east''])]
   \<and> pending_fetches (handleFiltersChange [(''region'', [''east''])] (run App_init wide_load)) =
       [\<lparr>fr_instance = 1, fr_page = 1, fr_limit = 100, fr_offset = 0,
         fr_filters = [(''region'', [''east''])]\<rparr>]
   \<and> q_filters (getFilteredData_query 100 0 [(''region'', [''east''])])
       = Some [(''region'', [''east''])]
   \<and> map_option currentPage
        (table (loadPage_settle
           \<lparr>fr_instance = 1, fr_page = 1, fr_limit = 100, fr_offset = 0,
             fr_filters = [(''region'', [''east''])]\<rparr>
           (HttpOk (BodyValue east_page))
           (handleFiltersChange [(''region'', [''east''])] (run App_init wide_load)))) = Some 1
   \<and> map_option dt_data
        (table (loadPage_settle
           \<lparr>fr_instance = 1, fr_page = 1, fr_limit = 100, fr_offset = 0,
             fr_filters = [(''region'', [''east''])]\<rparr>
           (HttpOk (BodyValue east_page))
           (handleFiltersChange [(''region'', [''east''])] (run App_init wide_load))))
       = Some east_rows"
proof -
  have t: "table (run App_init wide_load) = Some (DataTable_mount wide_data)"
    by code_simp
  have p: "pending_fetches (run App_init wide_load) = []" "mount_count (run App_init wide_load) = 1"
    by code_simp+
  from filter_change_resets_page [OF t, of "[(''region'', [''east''])]" east_page] t p
  show ?thesis
    by (auto simp: DataTable_mount_def east_page_def)
qed

text \<open>
  Claim C3 as stated fails: the displayed page can be inconsistent with the new filter. A
  fetch of page 2 is outstanding when the filter is changed; the fetch of the filter
  change settles, then the earlier one. With nothing outstanding any more, the table
  shows page 2, the unfiltered rows and the unfiltered row count under the new filter.
\<close>

theorem earlier_fetch_overwrites_filtered_page:
  "stale_page_trace = wide_load @
     [PageChange 2,
      Slicer ''region'' (ToggleValue ''east''),
      FetchSettled 1 (HttpOk (BodyValue east_page)),
      FetchSettled 0 (HttpOk (BodyValue unfiltered_page_two))]
   \<and> fr_page (pending_fetches (run App_init (wide_load @ [PageChange 2])) ! 0) = 2
   \<and> fr_filters (pending_fetches (run App_init (wide_load @ [PageChange 2])) ! 0) = []
   \<and> map_option filters (table (run App_init stale_page_trace)) = Some [(''region'', [''east''])]
   \<and> map_option currentPage (table (run App_init stale_page_trace)) = Some 2
   \<and> map_option dt_data (table (run App_init stale_page_trace)) = Some west_rows
   \<and> map_option filteredRows (table (run App_init stale_page_trace)) = Some 250
   \<and> map_option dt_loading (table (run App_init stale_page_trace)) = Some False
   \<and> pending_fetches (run App_init stale_page_trace) = []"
  by code_simp

section \<open>Loading a file\<close>

lemma handleLoadFile_loading:
  "app_loading s \<Longrightarrow> app_loading (handleLoadFile p s)"
  "length (pending_loads s) \<le> length (pending_loads (handleLoadFile p s))"
  by (simp_all add: handleLoadFile_def Let_def)

lemma handle_keeps_loading:
  assumes "app_loading s" and "\<not> is_LoadSettled e"
  shows "app_loading (handle e s)"
    and "length (pending_loads s) \<le> length (pending_loads (handle e s))"
  using assms handleLoadFile_loading [of s]
  by (cases e; simp add: clearData_def split: option.splits prod.splits)+

lemma step_keeps_loading:
  assumes "app_loading s" and "\<not> is_LoadSettled e"
  shows "app_loading (step e s) \<and> table (step e s) = None
    \<and> length (pending_loads s) \<le> length (pending_loads (step e s))"
  using handle_keeps_loading [OF assms] by (simp add: step_def)

lemma run_keeps_loading:
  assumes "app_loading s" and "table s = None" and "\<forall>e \<in> set es. \<not> is_LoadSettled e"
  shows "app_loading (run s es) \<and> table (run s es) = None
    \<and> length (pending_loads s) \<le> length (pending_loads (run s es))"
  using assms
proof (induction es arbitrary: s)
  case Nil
  then show ?case by simp
next
  case (Cons e es)
  from Cons.prems have e: "\<not> is_LoadSettled e" by simp
  note st = step_keeps_loading [OF Cons.prems(1) e]
  from Cons.prems have "\<forall>e \<in> set es. \<not> is_LoadSettled e" by simp
  with st Cons.IH [of "step e s"] show ?case by auto
qed

text \<open>
  Claim C4, as amended. When a file is loaded and no other load settles between the start
  of the load and its successful end, the table is mounted afresh on the new data: page 1,
  hence offset 0, and no filters, whatever page and filters were active before the load
  and whatever else happened during it.
\<close>

theorem load_resets_view:
  assumes "truthy target" and "\<forall>e \<in> set es. \<not> is_LoadSettled e"
  shows "table (step (LoadSettled (length (pending_loads s)) (HttpOk (BodyValue lp))
                        (HttpOk (BodyValue d)))
                  (run (step (LoadFile (Some target)) s) es)) = Some (DataTable_mount d)
    \<and> currentPage (DataTable_mount d) = 1
    \<and> filters (DataTable_mount d) = []
    \<and> (currentPage (DataTable_mount d) - 1) * pageSize (DataTable_mount d) = 0"
proof -
  let ?s1 = "step (LoadFile (Some target)) s"
  let ?s2 = "run ?s1 es"
  let ?i = "length (pending_loads s)"
  have h1: "app_loading (handle (LoadFile (Some target)) s)"
    "pending_loads (handle (LoadFile (Some target)) s) = pending_loads s @ [target]"
    using assms(1) by (simp_all add: handleLoadFile_def)
  then have s1: "app_loading ?s1" "table ?s1 = None" "length (pending_loads ?s1) = Suc ?i"
    by (simp_all add: step_def)
  from run_keeps_loading [OF s1(1) s1(2) assms(2)] s1(3)
  have s2: "app_loading ?s2" "table ?s2 = None" "?i < length (pending_loads ?s2)"
    by simp_all
  let ?h = "handle (LoadSettled ?i (HttpOk (BodyValue lp)) (HttpOk (BodyValue d))) ?s2"
  have "app_data ?h = Some d" "\<not> app_loading ?h" "table ?h = None"
    using s2
    by (simp_all add: handleLoadFile_settle_def handleLoadFile_try_def loadParquet_def
        getData_def handleDataLoaded_def)
  then have "table (render ?h) = Some (DataTable_mount d)"
    by simp
  then show ?thesis
    by (simp add: step_def DataTable_mount_def)
qed

theorem load_resets_view_witness:
  "truthy ''b.parquet''
   \<and> list_all (\<lambda>e. \<not> is_LoadSettled e) [PageChange 1, ClearAllFilters]
   \<and> map_option currentPage (table (run App_init (east_filtered @ [PageSizeChange Rows50]))) = Some 1
   \<and> map_option filters (table (run App_init east_filtered)) = Some [(''region'', [''east''])]
   \<and> table (step (LoadSettled 0 load_ok (HttpOk (BodyValue city_data)))
               (run (step (LoadFile (Some ''b.parquet'')) (run App_init east_filtered))
                  [PageChange 1, ClearAllFilters])) = Some (DataTable_mount city_data)
   \<and> currentPage (DataTable_mount city_data) = 1
   \<and> filters (DataTable_mount city_data) = []"
proof -
  have a: "truthy ''b.parquet''" by (simp add: truthy_def)
  have b: "\<forall>e \<in> set [PageChange 1, ClearAllFilters]. \<not> is_LoadSettled e" by simp
  have c: "length (pending_loads (run App_init east_filtered)) = 0" by code_simp
  have d: "map_option currentPage (table (run App_init (east_filtered @ [PageSizeChange Rows50]))) = Some 1"
    "map_option filters (table (run App_init east_filtered)) = Some [(''region'', [''east''])]"
    by code_simp+
  from load_resets_view [OF a b, of "run App_init east_filtered" "\<lparr>lp_message = ''loaded'', lp_rows = 5\<rparr>" city_data]
    a c d
  show ?thesis
    by (simp add: load_ok_def)
qed

text \<open>
  Claim C4 as stated fails: when a second load is started while a first is in flight, the
  first to settle mounts the table, and the second replaces the data under the mounted
  table, which keeps its page and its filters.
\<close>

theorem overlapping_load_keeps_view:
  "overlapping_loads =
     [FileSelect ''a.parquet'', FileSelect ''b.parquet'',
      LoadSettled 0 load_ok (HttpOk (BodyValue wide_data)),
      Slicer ''region'' (ToggleValue ''east''),
      FetchSettled 0 (HttpOk (BodyValue east_page)),
      PageChange 2,
      FetchSettled 0 (HttpOk (BodyValue east_page)),
      LoadSettled 0 load_ok (HttpOk (BodyValue city_data))]
   \<and> app_data (run App_init overlapping_loads) = Some city_data
   \<and> map_option currentPage (table (run App_init overlapping_loads)) = Some 2
   \<and> map_option filters (table (run App_init overlapping_loads)) = Some [(''region'', [''east''])]"
  by code_simp

section \<open>Fetches that fail\<close>






section \<open>Exports\<close>

text \<open>
  Claim C6. An export started from a table carries the filters the table has at that
  moment: they are the \<^verbatim>\<open>filters\<close> argument of the request, and the query of the request
  has them as its \<^verbatim>\<open>filters\<close> parameter (no parameter when they are empty). Whatever
  happens afterwards, filter changes included, the request sent stays what it was.
\<close>

theorem export_carries_filters_of_its_start:
  assumes "table s = Some t"
  shows "sent_exports (DataTable_handleExport format limit s) = sent_exports s @
           [\<lparr>er_format = format, er_limit = limit, er_offset = Some 0,
             er_filters = Some (filters t)\<rparr>]
    \<and> export_request_query
          \<lparr>er_format = format, er_limit = limit, er_offset = Some 0,
           er_filters = Some (filters t)\<rparr>
        = \<lparr>q_limit = limit, q_offset = Some 0,
           q_filters = (if filters t = [] then None else Some (filters t))\<rparr>
    \<and> (\<forall>es. sent_exports (run (DataTable_handleExport format limit s) es) ! length (sent_exports s)
            = \<lparr>er_format = format, er_limit = limit, er_offset = Some 0,
               er_filters = Some (filters t)\<rparr>)"
proof -
  let ?r = "\<lparr>er_format = format, er_limit = limit, er_offset = Some 0,
             er_filters = Some (filters t)\<rparr>"
  let ?s1 = "DataTable_handleExport format limit s"
  have a: "sent_exports ?s1 = sent_exports s @ [?r]"
    using assms by (simp add: DataTable_handleExport_def Let_def)
  have "sent_exports (run ?s1 es) ! length (sent_exports s) = ?r" for es
  proof -
    from run_sent_exports [of ?s1 es] obtain zs
      where "sent_exports (run ?s1 es) = (sent_exports s @ [?r]) @ zs"
      unfolding a by (auto simp: prefix_def)
    then show ?thesis by (simp add: nth_append)
  qed
  with a show ?thesis
    by (simp add: export_request_query_def export_query_def filters_param_def)
qed

theorem export_carries_filters_of_its_start_witness:
  "map_option filters (table (run App_init east_filtered)) = Some [(''region'', [''east''])]
   \<and> sent_exports (run App_init east_filtered) = []
   \<and> er_filters (sent_exports
        (run (DataTable_handleExport Csv None (run App_init east_filtered))
           [Slicer ''region'' (ToggleValue ''west''), ClearAllFilters]) ! 0)
       = Some [(''region'', [''east''])]
   \<and> q_filters (export_request_query (sent_exports
        (run (DataTable_handleExport Csv None (run App_init east_filtered))
           [Slicer ''region'' (ToggleValue ''west''), ClearAllFilters]) ! 0))
       = Some [(''region'', [''east''])]
   \<and> map_option filters (table
        (run (DataTable_handleExport Csv None (run App_init east_filtered))
           [Slicer ''region'' (ToggleValue ''west''), ClearAllFilters])) = Some []"
proof -
  let ?s = "run App_init east_filtered"
  have "table ?s \<noteq> None" by code_simp
  then obtain t where t: "table ?s = Some t" by auto
  have f: "map_option filters (table ?s) = Some [(''region'', [''east''])]" by code_simp
  with t have ft: "filters t = [(''region'', [''east''])]" by simp
  have e: "sent_exports ?s = []" by code_simp
  have l: "map_option filters (table
        (run (DataTable_handleExport Csv None ?s)
           [Slicer ''region'' (ToggleValue ''west''), ClearAllFilters])) = Some []"
    by code_simp
  note c = export_carries_filters_of_its_start [OF t, of Csv None]
  have x: "sent_exports (run (DataTable_handleExport Csv None ?s) es) ! 0 =
         \<lparr>er_format = Csv, er_limit = None, er_offset = Some 0,
           er_filters = Some [(''region'', [''east''])]\<rparr>" for es
    using c ft e by simp
  have q: "q_filters (export_request_query
         \<lparr>er_format = Csv, er_limit = None, er_offset = Some 0,
           er_filters = Some [(''region'', [''east''])]\<rparr>) = Some [(''region'', [''east''])]"
    using c ft by simp
  note y = x [of "[Slicer ''region'' (ToggleValue ''west''), ClearAllFilters]"]
  from f e l q show ?thesis
    unfolding y by simp
qed

section \<open>Page navigation\<close>

lemma page_in_range_iff:
  fixes p f z :: int
  assumes "0 < z"
  shows "(1 \<le> p \<and> p \<le> \<lceil>real_of_int f / real_of_int z\<rceil>) \<longleftrightarrow> (0 \<le> (p - 1) * z \<and> (p - 1) * z < f)"
proof -
  have "p \<le> \<lceil>real_of_int f / real_of_int z\<rceil> \<longleftrightarrow> real_of_int p - 1 < real_of_int f / real_of_int z"
    by (rule le_ceiling_iff)
  also have "\<dots> \<longleftrightarrow> (real_of_int p - 1) * real_of_int z < real_of_int f"
    using assms by (simp add: pos_less_divide_eq)
  also have "\<dots> \<longleftrightarrow> real_of_int ((p - 1) * z) < real_of_int f"
    by simp
  also have "\<dots> \<longleftrightarrow> (p - 1) * z < f"
    by (rule of_int_less_iff)
  finally have a: "p \<le> \<lceil>real_of_int f / real_of_int z\<rceil> \<longleftrightarrow> (p - 1) * z < f" .
  have b: "1 \<le> p \<longleftrightarrow> 0 \<le> (p - 1) * z"
    using assms by (auto simp add: zero_le_mult_iff)
  show ?thesis using a b by simp
qed

lemma handlePageChange_window:
  assumes "table s = Some t" and "0 < pageSize t"
  shows "if 1 \<le> p \<and> p \<le> \<lceil>real_of_int (filteredRows t) / real_of_int (pageSize t)\<rceil>
            \<and> p \<noteq> currentPage t
         then pending_fetches (handlePageChange p s) = pending_fetches s @
                [\<lparr>fr_instance = mount_count s, fr_page = p, fr_limit = pageSize t,
                  fr_offset = (p - 1) * pageSize t, fr_filters = filters t\<rparr>]
              \<and> q_limit (getFilteredData_query (pageSize t) ((p - 1) * pageSize t) (filters t))
                  = Some (Num (pageSize t))
              \<and> q_offset (getFilteredData_query (pageSize t) ((p - 1) * pageSize t) (filters t))
                  = Some ((p - 1) * pageSize t)
              \<and> 0 \<le> pageSize t \<and> 0 \<le> (p - 1) * pageSize t
              \<and> (p - 1) * pageSize t < filteredRows t
         else handlePageChange p s = s"
proof (cases "1 \<le> p \<and> p \<le> \<lceil>real_of_int (filteredRows t) / real_of_int (pageSize t)\<rceil>
            \<and> p \<noteq> currentPage t")
  case True
  then have r: "0 \<le> (p - 1) * pageSize t \<and> (p - 1) * pageSize t < filteredRows t"
    using page_in_range_iff [OF assms(2), of p "filteredRows t"] by simp
  have "handlePageChange p s = loadPage p (pageSize t) (filters t) s"
    using True assms(1) by (simp add: handlePageChange_def totalPages_def)
  then have "pending_fetches (handlePageChange p s) = pending_fetches s @
                [\<lparr>fr_instance = mount_count s, fr_page = p, fr_limit = pageSize t,
                  fr_offset = (p - 1) * pageSize t, fr_filters = filters t\<rparr>]"
    by (simp add: loadPage_def Let_def)
  with True r assms(2) show ?thesis
    by (simp add: getFilteredData_query_def)
next
  case False
  then have "handlePageChange p s = s"
    using assms(1) by (auto simp: handlePageChange_def totalPages_def)
  with False show ?thesis by simp
qed

lemma positive_size_map_option:
  "positive_page_size x \<Longrightarrow> (\<And>t. pageSize (f t) = pageSize t) \<Longrightarrow> positive_page_size (map_option f x)"
  by (cases x) auto

lemma positive_size_on_instance:
  "positive_page_size (table s) \<Longrightarrow> (\<And>t. pageSize (f t) = pageSize t) \<Longrightarrow>
   positive_page_size (table (on_instance i f s))"
  by (simp add: on_instance_def positive_size_map_option)

lemma positive_size_loadPage:
  "positive_page_size (table s) \<Longrightarrow> positive_page_size (table (loadPage p z f s))"
  by (simp add: loadPage_def Let_def positive_size_map_option)

lemma positive_size_effect: "pageSize (DataTable_effect d t) = pageSize t"
  by (simp add: DataTable_effect_def)

lemma positive_size_handleError: "table (handleError m s) = table s"
  by (simp add: handleError_def)

lemma positive_size_loadPage_try:
  "positive_page_size (table s) \<Longrightarrow> loadPage_try r out s = Inr s' \<Longrightarrow> positive_page_size (table s')"
  by (auto simp: loadPage_try_def positive_size_on_instance split: sum.splits option.splits)

lemma positive_size_loadPage_settle:
  "positive_page_size (table s) \<Longrightarrow> positive_page_size (table (loadPage_settle r out s))"
  using positive_size_loadPage_try [of s r out]
  by (auto simp: loadPage_settle_def Let_def positive_size_on_instance positive_size_handleError split: sum.splits)

lemma positive_size_handlePageChange:
  "positive_page_size (table s) \<Longrightarrow> positive_page_size (table (handlePageChange p s))"
  by (auto simp: handlePageChange_def positive_size_loadPage split: option.splits)

lemma positive_size_handlePageSizeChange:
  "positive_page_size (table (handlePageSizeChange (page_size_value c) s))"
  by (cases c) (simp_all add: handlePageSizeChange_def loadPage_def Let_def split: option.splits)

lemma positive_size_handleFiltersChange:
  assumes "positive_page_size (table s)"
  shows "positive_page_size (table (handleFiltersChange nf s))"
proof (cases "table s")
  case None
  then show ?thesis by (simp add: handleFiltersChange_def)
next
  case (Some t)
  with assms have "0 < pageSize t" by simp
  with Some show ?thesis
    by (simp add: handleFiltersChange_def loadPage_def Let_def positive_size_effect split: option.splits)
qed

lemma positive_size_DataTable_handleExport: "table (DataTable_handleExport fmt l s) = table s"
  by (simp add: DataTable_handleExport_def Let_def split: option.splits)

lemma positive_size_with_export_button:
  assumes "positive_page_size (table s)"
  shows "positive_page_size (table (with_export_button h s))"
proof (cases "table s")
  case None
  then show ?thesis by (simp add: with_export_button_def)
next
  case (Some t)
  with assms have "0 < pageSize t" by simp
  with Some show ?thesis
    by (simp add: with_export_button_def positive_size_DataTable_handleExport
        split: prod.splits option.splits export_call.splits)
qed

lemma positive_size_handleLoadFile: "table (handleLoadFile p s) = table s"
  by (simp add: handleLoadFile_def Let_def handleError_def)

lemma positive_size_handleLoadFile_try:
  "positive_page_size (table s) \<Longrightarrow> handleLoadFile_try p o1 o2 s = Inr s' \<Longrightarrow>
   positive_page_size (table s')"
  by (auto simp: handleLoadFile_try_def handleDataLoaded_def positive_size_map_option positive_size_effect
      split: sum.splits option.splits)

lemma positive_size_handleLoadFile_settle:
  "positive_page_size (table s) \<Longrightarrow> positive_page_size (table (handleLoadFile_settle p o1 o2 s))"
  using positive_size_handleLoadFile_try [of s p o1 o2]
  by (auto simp: handleLoadFile_settle_def Let_def positive_size_handleError split: sum.splits)

lemma positive_size_handleExport_settle: "table (handleExport_settle r out s) = table s"
  by (simp add: handleExport_settle_def handleError_def split: sum.splits option.splits)

lemma positive_size_handle:
  assumes "positive_page_size (table s)"
  shows "positive_page_size (table (handle e s))"
proof (cases e)
  case (LoadSettled i o1 o2)
  with assms positive_size_handleLoadFile_settle [of "s\<lparr>pending_loads := remove_nth i (pending_loads s)\<rparr>"]
  show ?thesis by simp
next
  case (FetchSettled i out)
  with assms positive_size_loadPage_settle [of "s\<lparr>pending_fetches := remove_nth i (pending_fetches s)\<rparr>"]
  show ?thesis by simp
next
  case (ExportSettled i out)
  with assms show ?thesis by (simp add: positive_size_handleExport_settle)
qed (use assms in \<open>auto simp: positive_size_handleLoadFile positive_size_handlePageChange positive_size_handlePageSizeChange
      positive_size_handleFiltersChange positive_size_with_export_button clearData_def
      split: option.splits prod.splits\<close>)

lemma positive_size_render:
  "positive_page_size (table s) \<Longrightarrow> positive_page_size (table (render s))"
  by (auto simp: render_def DataTable_mount_def split: option.splits)

lemma positive_size_step: "positive_page_size (table s) \<Longrightarrow> positive_page_size (table (step e s))"
  by (simp add: step_def positive_size_handle positive_size_render)

lemma positive_size_run: "positive_page_size (table s) \<Longrightarrow> positive_page_size (table (run s es))"
  by (induction es arbitrary: s) (simp_all add: positive_size_step)

lemma reachable_page_size: "table (run App_init es) = Some t \<Longrightarrow> 0 < pageSize t"
  using positive_size_run [of App_init es] by (simp add: App_init_def)

text \<open>
  Claim C7. In every state the page can reach, a navigation to page \<open>p\<close> of a table with
  page size \<open>s\<close> issues a fetch exactly when \<open>p\<close> lies between 1 and the ceiling of the
  filtered row count over \<open>s\<close> and differs from the current page; the fetch is issued
  with limit \<open>s\<close> and offset \<open>(p - 1) * s\<close>, both non-negative, the offset below the
  filtered row count. Otherwise nothing is issued and nothing changes. (Counts are
  integers; \<^verbatim>\<open>Math.ceil\<close> of their quotient is taken exactly.)
\<close>

theorem page_navigation_window:
  assumes "table (run App_init es) = Some t"
  shows "if 1 \<le> p \<and> p \<le> \<lceil>real_of_int (filteredRows t) / real_of_int (pageSize t)\<rceil>
            \<and> p \<noteq> currentPage t
         then pending_fetches (handlePageChange p (run App_init es)) =
                pending_fetches (run App_init es) @
                [\<lparr>fr_instance = mount_count (run App_init es), fr_page = p, fr_limit = pageSize t,
                  fr_offset = (p - 1) * pageSize t, fr_filters = filters t\<rparr>]
              \<and> q_limit (getFilteredData_query (pageSize t) ((p - 1) * pageSize t) (filters t))
                  = Some (Num (pageSize t))
              \<and> q_offset (getFilteredData_query (pageSize t) ((p - 1) * pageSize t) (filters t))
                  = Some ((p - 1) * pageSize t)
              \<and> 0 \<le> pageSize t \<and> 0 \<le> (p - 1) * pageSize t
              \<and> (p - 1) * pageSize t < filteredRows t
         else handlePageChange p (run App_init es) = run App_init es"
  using handlePageChange_window [OF assms reachable_page_size [OF assms], of p] .

theorem page_navigation_window_witness:
  "table (run App_init wide_load) = Some (DataTable_mount wide_data)
   \<and> pending_fetches (handlePageChange 3 (run App_init wide_load)) =
       [\<lparr>fr_instance = 1, fr_page = 3, fr_limit = 100, fr_offset = 200, fr_filters = []\<rparr>]
   \<and> handlePageChange 4 (run App_init wide_load) = run App_init wide_load
   \<and> handlePageChange 1 (run App_init wide_load) = run App_init wide_load
   \<and> handlePageChange 0 (run App_init wide_load) = run App_init wide_load"
proof -
  have t: "table (run App_init wide_load) = Some (DataTable_mount wide_data)"
    by code_simp
  have p: "pending_fetches (run App_init wide_load) = []" "mount_count (run App_init wide_load) = 1"
    by code_simp+
  have c: "\<lceil>real_of_int 250 / real_of_int 100\<rceil> = (3 :: int)"
    by (simp add: ceiling_eq_iff)
  from page_navigation_window [OF t, of 3] page_navigation_window [OF t, of 4]
    page_navigation_window [OF t, of 1] page_navigation_window [OF t, of 0] t p c
  show ?thesis
    by (simp add: DataTable_mount_def wide_data_def)
qed

section \<open>The filters of the table\<close>

subsection \<open>What a handler does to the filters\<close>

lemma tf_mounted: "table s = Some t \<Longrightarrow> table_filters s = Some (filters t)"
  by (simp add: table_filters_def)

lemma tf_unmounted: "table s = None \<Longrightarrow> table_filters s = None"
  by (simp add: table_filters_def)

lemma tf_fields [simp]:
  "table_filters (s\<lparr>pending_loads := x\<rparr>) = table_filters s"
  "table_filters (s\<lparr>pending_fetches := y\<rparr>) = table_filters s"
  "table_filters (s\<lparr>pending_exports := z\<rparr>) = table_filters s"
  "table_filters (s\<lparr>sent_exports := z\<rparr>) = table_filters s"
  "table_filters (s\<lparr>filePath := w\<rparr>) = table_filters s"
  "table_filters (s\<lparr>app_loading := b\<rparr>) = table_filters s"
  "table_filters (s\<lparr>app_data := u\<rparr>) = table_filters s"
  "table_filters (s\<lparr>app_error := v\<rparr>) = table_filters s"
  by (simp_all add: table_filters_def)

lemma tf_map_table:
  "(\<And>t. filters (f t) = filters t) \<Longrightarrow>
   table_filters (s\<lparr>table := map_option f (table s)\<rparr>) = table_filters s"
  by (cases "table s") (simp_all add: table_filters_def)

lemma tf_on_instance:
  "(\<And>t. filters (f t) = filters t) \<Longrightarrow> table_filters (on_instance i f s) = table_filters s"
  by (simp add: on_instance_def tf_map_table)

lemma tf_loadPage [simp]: "table_filters (loadPage p z f s) = table_filters s"
  by (simp add: loadPage_def Let_def tf_map_table)

lemma tf_handleError [simp]: "table_filters (handleError m s) = table_filters s"
  by (simp add: handleError_def)

lemma tf_loadPage_try:
  "loadPage_try r out s = Inr s' \<Longrightarrow> table_filters s' = table_filters s"
  by (auto simp: loadPage_try_def tf_on_instance split: sum.splits option.splits)

lemma tf_loadPage_settle [simp]: "table_filters (loadPage_settle r out s) = table_filters s"
  using tf_loadPage_try [of r out s]
  by (auto simp: loadPage_settle_def Let_def tf_on_instance split: sum.splits)

lemma tf_handlePageChange [simp]: "table_filters (handlePageChange p s) = table_filters s"
  by (simp add: handlePageChange_def split: option.splits)

lemma tf_handlePageSizeChange [simp]: "table_filters (handlePageSizeChange z s) = table_filters s"
proof (cases "table s")
  case None
  then show ?thesis by (simp add: handlePageSizeChange_def)
next
  case (Some t)
  have "table_filters (s\<lparr>table := Some (t\<lparr>pageSize := z\<rparr>)\<rparr>) = table_filters s"
    using Some by (simp add: table_filters_def)
  with Some show ?thesis by (simp add: handlePageSizeChange_def)
qed

lemma filters_effect [simp]: "filters (DataTable_effect d t) = filters t"
  by (simp add: DataTable_effect_def)

lemma tf_handleFiltersChange:
  "table_filters (handleFiltersChange nf s) = map_option (\<lambda>fs. nf) (table_filters s)"
  by (cases "table s"; cases "app_data s")
     (simp_all add: handleFiltersChange_def loadPage_def Let_def table_filters_def)

lemma tf_DataTable_handleExport [simp]:
  "table_filters (DataTable_handleExport fmt l s) = table_filters s"
  by (simp add: DataTable_handleExport_def Let_def split: option.splits)

lemma tf_with_export_button [simp]:
  "table_filters (with_export_button h s) = table_filters s"
proof (cases "table s")
  case None
  then show ?thesis by (simp add: with_export_button_def)
next
  case (Some t)
  have a: "table_filters (s\<lparr>table := Some (t\<lparr>exportButton := b\<rparr>)\<rparr>) = table_filters s" for b
    using Some by (simp add: table_filters_def)
  show ?thesis
    using Some a
    by (simp add: with_export_button_def split: prod.splits option.splits export_call.splits)
qed

lemma tf_handleLoadFile [simp]: "table_filters (handleLoadFile p s) = table_filters s"
  by (simp add: handleLoadFile_def Let_def)

lemma tf_handleDataLoaded [simp]: "table_filters (handleDataLoaded d s) = table_filters s"
proof -
  have "table_filters (s\<lparr>table := map_option (DataTable_effect d) (table s)\<rparr>) = table_filters s"
    by (rule tf_map_table) simp
  then show ?thesis
    by (simp add: handleDataLoaded_def table_filters_def)
qed

lemma tf_handleLoadFile_try:
  "handleLoadFile_try p o1 o2 s = Inr s' \<Longrightarrow> table_filters s' = table_filters s"
  by (auto simp: handleLoadFile_try_def split: sum.splits option.splits)

lemma tf_handleLoadFile_settle [simp]:
  "table_filters (handleLoadFile_settle p o1 o2 s) = table_filters s"
  using tf_handleLoadFile_try [of p o1 o2 s]
  by (auto simp: handleLoadFile_settle_def Let_def split: sum.splits)

lemma tf_handleExport_settle [simp]:
  "table_filters (handleExport_settle r out s) = table_filters s"
  by (simp add: handleExport_settle_def split: sum.splits option.splits)

lemma tf_clearData [simp]: "table_filters (clearData s) = table_filters s"
  by (simp add: clearData_def)

lemma tf_render:
  "table_filters (render s) =
     (case app_data s of
        None \<Rightarrow> None
      | Some d \<Rightarrow> if app_loading s then None
                  else (case table_filters s of None \<Rightarrow> Some [] | Some fs \<Rightarrow> Some fs))"
  by (cases "table s")
     (simp_all add: render_def table_filters_def DataTable_mount_def split: option.splits)

lemma holds_render:
  "holds P (table_filters s) \<Longrightarrow> P [] \<Longrightarrow> holds P (table_filters (render s))"
  by (cases "table_filters s") (simp_all add: tf_render split: option.splits)

lemma holds_handleFiltersChange:
  "P nf \<Longrightarrow> holds P (table_filters (handleFiltersChange nf s))"
  by (cases "table_filters s") (simp_all add: tf_handleFiltersChange)

subsection \<open>The filter objects the panel builds\<close>

lemma set_update_subset: "set (AList.update k v al) \<subseteq> insert (k, v) (set al)"
  by (induction al) auto

lemma set_delete_subset: "set (AList.delete k al) \<subseteq> set al"
  by (simp add: AList.delete_eq)

lemma constrained_iff:
  "constrained fs \<longleftrightarrow> distinct (map fst fs) \<and> (\<forall>p \<in> set fs. snd p \<noteq> [])"
  by (auto simp: constrained_def list_all_iff)

lemma keys_among_iff:
  "keys_among columns fs \<longleftrightarrow> (\<forall>p \<in> set fs. fst p \<in> set columns)"
  by (auto simp: keys_among_def list_all_iff)

lemma constrained_change:
  assumes "constrained fs"
  shows "constrained (handleColumnFilterChange fs c vs)"
proof (cases "vs = []")
  case True
  have "distinct (map fst (AList.delete c fs))"
    using assms by (simp add: constrained_iff AList.distinct_delete)
  moreover have "\<forall>p \<in> set (AList.delete c fs). snd p \<noteq> []"
    using assms set_delete_subset [of c fs] by (auto simp: constrained_iff)
  ultimately show ?thesis
    using True by (simp add: handleColumnFilterChange_def constrained_iff)
next
  case False
  have "distinct (map fst (AList.update c vs fs))"
    using assms by (simp add: constrained_iff AList.distinct_update)
  moreover have "\<forall>p \<in> set (AList.update c vs fs). snd p \<noteq> []"
  proof
    fix p
    assume "p \<in> set (AList.update c vs fs)"
    with set_update_subset [of c vs fs] have "p = (c, vs) \<or> p \<in> set fs" by auto
    then show "snd p \<noteq> []"
      using assms False by (auto simp: constrained_iff)
  qed
  ultimately show ?thesis
    using False by (simp add: handleColumnFilterChange_def constrained_iff)
qed

lemma keys_among_delete: "keys_among columns fs \<Longrightarrow> keys_among columns (AList.delete c fs)"
  using set_delete_subset [of c fs] by (auto simp: keys_among_iff)

lemma keys_among_change:
  assumes "keys_among columns fs" and "c \<in> set columns"
  shows "keys_among columns (handleColumnFilterChange fs c vs)"
proof (cases "vs = []")
  case True
  with assms(1) show ?thesis
    by (simp add: handleColumnFilterChange_def keys_among_delete)
next
  case False
  have "\<forall>p \<in> set (AList.update c vs fs). fst p \<in> set columns"
  proof
    fix p
    assume "p \<in> set (AList.update c vs fs)"
    with set_update_subset [of c vs fs] have "p = (c, vs) \<or> p \<in> set fs" by auto
    then show "fst p \<in> set columns"
      using assms by (auto simp: keys_among_iff)
  qed
  with False show ?thesis
    by (simp add: handleColumnFilterChange_def keys_among_iff)
qed

subsection \<open>Keys are distinct and values are not empty, along every run\<close>

lemma constrained_handle:
  assumes "holds constrained (table_filters s)"
  shows "holds constrained (table_filters (handle e s))"
proof (cases e)
  case (Slicer c a)
  show ?thesis
  proof (cases "table s")
    case None
    with Slicer assms show ?thesis by simp
  next
    case (Some t)
    with assms have "constrained (filters t)" by (simp add: table_filters_def)
    then have "holds constrained (table_filters
        (handleFiltersChange (handleColumnFilterChange (filters t) c vs) s))" for vs
      by (intro holds_handleFiltersChange constrained_change)
    with Slicer Some assms show ?thesis
      by (simp split: option.splits)
  qed
next
  case (RemoveFilter c)
  show ?thesis
  proof (cases "table s")
    case None
    with RemoveFilter assms show ?thesis by simp
  next
    case (Some t)
    with assms have "constrained (filters t)" by (simp add: table_filters_def)
    then have "holds constrained (table_filters
        (handleFiltersChange (handleColumnFilterChange (filters t) c []) s))"
      by (intro holds_handleFiltersChange constrained_change)
    with RemoveFilter Some assms show ?thesis
      by simp
  qed
next
  case ClearAllFilters
  have "holds constrained (table_filters (handleFiltersChange [] s))"
    by (rule holds_handleFiltersChange) (simp add: constrained_def)
  with ClearAllFilters show ?thesis
    by (simp add: handleClearAllFilters_def)
qed (use assms in \<open>simp_all split: option.splits\<close>)

lemma constrained_step:
  "holds constrained (table_filters s) \<Longrightarrow> holds constrained (table_filters (step e s))"
  unfolding step_def
  by (intro holds_render constrained_handle) (simp_all add: constrained_def)

lemma constrained_run:
  "holds constrained (table_filters s) \<Longrightarrow> holds constrained (table_filters (run s es))"
  by (induction es arbitrary: s) (simp_all add: constrained_step)

subsection \<open>Keys are columns, while no load settles under a mounted table\<close>

lemma ad_loadPage_try:
  "loadPage_try r out s = Inr s' \<Longrightarrow> app_data s' = app_data s"
  by (auto simp: loadPage_try_def split: sum.splits option.splits)

lemma ad_loadPage_settle:
  "app_data (loadPage_settle r out s) = app_data s \<or> app_data (loadPage_settle r out s) = None"
proof (cases "loadPage_try r out s")
  case (Inl e)
  then show ?thesis by (simp add: loadPage_settle_def handleError_def)
next
  case (Inr s')
  with ad_loadPage_try [OF Inr] show ?thesis by (simp add: loadPage_settle_def)
qed

lemma ad_handlePageChange [simp]: "app_data (handlePageChange p s) = app_data s"
  by (simp add: handlePageChange_def split: option.splits)

lemma ad_handlePageSizeChange [simp]: "app_data (handlePageSizeChange z s) = app_data s"
  by (simp add: handlePageSizeChange_def split: option.splits)

lemma ad_handleFiltersChange [simp]: "app_data (handleFiltersChange nf s) = app_data s"
  by (simp add: handleFiltersChange_def Let_def split: option.splits)

lemma ad_DataTable_handleExport [simp]: "app_data (DataTable_handleExport fmt l s) = app_data s"
  by (simp add: DataTable_handleExport_def Let_def split: option.splits)

lemma ad_with_export_button [simp]: "app_data (with_export_button h s) = app_data s"
proof (cases "table s")
  case None
  then show ?thesis by (simp add: with_export_button_def)
next
  case (Some t)
  have a: "app_data (DataTable_handleExport fmt l (s\<lparr>table := x\<rparr>)) = app_data s" for fmt l x
    by simp
  show ?thesis
    using Some a
    by (simp add: with_export_button_def split: prod.splits option.splits export_call.splits)
qed

lemma ad_handleExport_settle:
  "app_data (handleExport_settle r out s) = app_data s
   \<or> app_data (handleExport_settle r out s) = None"
  by (simp add: handleExport_settle_def handleError_def split: sum.splits option.splits)

lemma ad_handleLoadFile:
  "app_data (handleLoadFile p s) = app_data s \<or> app_data (handleLoadFile p s) = None"
  by (simp add: handleLoadFile_def Let_def handleError_def)

lemma keys_inv_same:
  assumes "keys_inv s" and "app_data s' = app_data s \<or> app_data s' = None"
    and "table_filters s' = table_filters s"
  shows "keys_inv s'"
proof (cases "app_data s'")
  case None
  then show ?thesis by (simp add: keys_inv_def)
next
  case (Some d)
  with assms(2) have "app_data s = Some d" by auto
  with assms(1) assms(3) Some show ?thesis by (simp add: keys_inv_def)
qed

lemma keys_inv_filters_change:
  assumes "app_data s = Some d" and "keys_among (dr_columns d) nf"
  shows "keys_inv (handleFiltersChange nf s)"
  using assms holds_handleFiltersChange [of "keys_among (dr_columns d)" nf s]
  by (simp add: keys_inv_def)

lemma keys_inv_no_data: "app_data s = None \<Longrightarrow> keys_inv (handleFiltersChange nf s)"
  by (simp add: keys_inv_def)

lemma keys_handle:
  assumes "keys_inv s" and "\<not> is_LoadSettled e"
  shows "keys_inv (handle e s)"
proof (cases e)
  case (SetFilePath p)
  have "keys_inv (s\<lparr>filePath := p\<rparr>)"
    using assms(1) by (rule keys_inv_same) simp_all
  with SetFilePath show ?thesis by simp
next
  case (LoadFile p)
  have "keys_inv (handleLoadFile p s)"
    using assms(1) ad_handleLoadFile [of p s] by (rule keys_inv_same) simp
  with LoadFile show ?thesis by simp
next
  case (FileSelect p)
  have "keys_inv ((handleLoadFile (Some p) s)\<lparr>filePath := p\<rparr>)"
  proof (rule keys_inv_same [OF assms(1)])
    show "app_data ((handleLoadFile (Some p) s)\<lparr>filePath := p\<rparr>) = app_data s
        \<or> app_data ((handleLoadFile (Some p) s)\<lparr>filePath := p\<rparr>) = None"
      using ad_handleLoadFile [of "Some p" s] by simp
    show "table_filters ((handleLoadFile (Some p) s)\<lparr>filePath := p\<rparr>) = table_filters s"
      by simp
  qed
  with FileSelect show ?thesis by simp
next
  case (LoadSettled i o1 o2)
  with assms show ?thesis by simp
next
  case ClearData
  have "keys_inv (handle ClearData s)"
    using assms(1)
    by (rule keys_inv_same) (simp_all add: clearData_def split: option.splits)
  with ClearData show ?thesis by simp
next
  case (PageChange p)
  have "keys_inv (handle (PageChange p) s)"
    using assms(1) by (rule keys_inv_same) simp_all
  with PageChange show ?thesis by simp
next
  case (PageSizeChange c)
  have "keys_inv (handle (PageSizeChange c) s)"
    using assms(1) by (rule keys_inv_same) simp_all
  with PageSizeChange show ?thesis by simp
next
  case (Slicer c a)
  show ?thesis
  proof (cases "table s")
    case None
    with Slicer assms show ?thesis by simp
  next
    case t: (Some t)
    show ?thesis
    proof (cases "app_data s")
      case None
      with Slicer t assms show ?thesis by simp
    next
      case (Some d)
      with t assms(1) have k: "keys_among (dr_columns d) (filters t)"
        by (simp add: keys_inv_def table_filters_def)
      have "keys_inv (handleFiltersChange (handleColumnFilterChange (filters t) c vs) s)"
        if "c \<in> set (dr_columns d)" for vs
        using Some keys_among_change [OF k that] by (rule keys_inv_filters_change)
      with Slicer t Some assms show ?thesis
        by (simp split: option.splits)
    qed
  qed
next
  case (RemoveFilter c)
  show ?thesis
  proof (cases "table s")
    case None
    with RemoveFilter assms show ?thesis by simp
  next
    case t: (Some t)
    show ?thesis
    proof (cases "app_data s")
      case None
      with RemoveFilter t assms(1) show ?thesis by (simp add: keys_inv_no_data)
    next
      case (Some d)
      with t assms(1) have k: "keys_among (dr_columns d) (filters t)"
        by (simp add: keys_inv_def table_filters_def)
      have "keys_among (dr_columns d) (handleColumnFilterChange (filters t) c [])"
        using k by (simp add: handleColumnFilterChange_def keys_among_delete)
      with Some have "keys_inv (handleFiltersChange (handleColumnFilterChange (filters t) c []) s)"
        by (rule keys_inv_filters_change)
      with RemoveFilter t assms show ?thesis by simp
    qed
  qed
next
  case ClearAllFilters
  show ?thesis
  proof (cases "app_data s")
    case None
    with ClearAllFilters show ?thesis by (simp add: keys_inv_no_data)
  next
    case (Some d)
    then have "keys_inv (handleFiltersChange [] s)"
      by (rule keys_inv_filters_change) (simp add: keys_among_def)
    with ClearAllFilters show ?thesis by (simp add: handleClearAllFilters_def)
  qed
next
  case (FetchSettled i out)
  show ?thesis
  proof (cases "i < length (pending_fetches s)")
    case True
    let ?s0 = "s\<lparr>pending_fetches := remove_nth i (pending_fetches s)\<rparr>"
    have "keys_inv (loadPage_settle (pending_fetches s ! i) out ?s0)"
    proof (rule keys_inv_same [OF assms(1)])
      show "app_data (loadPage_settle (pending_fetches s ! i) out ?s0) = app_data s
          \<or> app_data (loadPage_settle (pending_fetches s ! i) out ?s0) = None"
        using ad_loadPage_settle [of "pending_fetches s ! i" out ?s0] by simp
      show "table_filters (loadPage_settle (pending_fetches s ! i) out ?s0) = table_filters s"
        by simp
    qed
    with FetchSettled True show ?thesis by simp
  next
    case False
    with FetchSettled assms show ?thesis by simp
  qed
next
  case ToggleExportOptions
  have "keys_inv (handle ToggleExportOptions s)"
    using assms(1) by (rule keys_inv_same) simp_all
  with ToggleExportOptions show ?thesis by simp
next
  case (SetExportLimit c)
  have "keys_inv (handle (SetExportLimit c) s)"
    using assms(1) by (rule keys_inv_same) simp_all
  with SetExportLimit show ?thesis by simp
next
  case (SetCustomLimit v)
  have "keys_inv (handle (SetCustomLimit v) s)"
    using assms(1) by (rule keys_inv_same) simp_all
  with SetCustomLimit show ?thesis by simp
next
  case (ClickExport fmt)
  have "keys_inv (handle (ClickExport fmt) s)"
    using assms(1) by (rule keys_inv_same) simp_all
  with ClickExport show ?thesis by simp
next
  case WarningCsv
  have "keys_inv (handle WarningCsv s)"
    using assms(1) by (rule keys_inv_same) simp_all
  with WarningCsv show ?thesis by simp
next
  case WarningExcel
  have "keys_inv (handle WarningExcel s)"
    using assms(1) by (rule keys_inv_same) simp_all
  with WarningExcel show ?thesis by simp
next
  case WarningCancel
  have "keys_inv (handle WarningCancel s)"
    using assms(1) by (rule keys_inv_same) simp_all
  with WarningCancel show ?thesis by simp
next
  case (ExportSettled i out)
  show ?thesis
  proof (cases "i < length (pending_exports s)")
    case True
    let ?s0 = "s\<lparr>pending_exports := remove_nth i (pending_exports s)\<rparr>"
    have "keys_inv (handleExport_settle (pending_exports s ! i) out ?s0)"
    proof (rule keys_inv_same [OF assms(1)])
      show "app_data (handleExport_settle (pending_exports s ! i) out ?s0) = app_data s
          \<or> app_data (handleExport_settle (pending_exports s ! i) out ?s0) = None"
        using ad_handleExport_settle [of "pending_exports s ! i" out ?s0] by simp
      show "table_filters (handleExport_settle (pending_exports s ! i) out ?s0) = table_filters s"
        by simp
    qed
    with ExportSettled True show ?thesis by simp
  next
    case False
    with ExportSettled assms show ?thesis by simp
  qed
qed

lemma keys_render: "keys_inv s \<Longrightarrow> keys_inv (render s)"
proof (cases "app_data s")
  case None
  then show ?thesis by (simp add: keys_inv_def)
next
  case (Some d)
  assume "keys_inv s"
  with Some have "holds (keys_among (dr_columns d)) (table_filters s)"
    by (simp add: keys_inv_def)
  then have "holds (keys_among (dr_columns d)) (table_filters (render s))"
    by (rule holds_render) (simp add: keys_among_def)
  with Some show ?thesis by (simp add: keys_inv_def)
qed

lemma keys_load_settled:
  assumes "table s = None"
  shows "keys_inv (handle (LoadSettled i o1 o2) s)"
proof -
  define s' where "s' = handle (LoadSettled i o1 o2) s"
  have "table_filters s' = None"
    unfolding s'_def
    using assms by (cases "i < length (pending_loads s)") (simp_all add: tf_unmounted)
  then have "keys_inv s'"
    by (cases "app_data s'") (simp_all add: keys_inv_def)
  then show ?thesis by (simp only: s'_def)
qed

lemma keys_step:
  assumes "keys_inv s" and "is_LoadSettled e \<Longrightarrow> table s = None"
  shows "keys_inv (step e s)"
proof (cases "is_LoadSettled e")
  case True
  then obtain i o1 o2 where e: "e = LoadSettled i o1 o2" by (cases e) auto
  from assms(2) True have "table s = None" by simp
  then have "keys_inv (handle (LoadSettled i o1 o2) s)" by (rule keys_load_settled)
  then show ?thesis
    unfolding step_def e by (rule keys_render)
next
  case False
  with assms(1) have "keys_inv (handle e s)" by (rule keys_handle)
  then show ?thesis
    unfolding step_def by (rule keys_render)
qed

lemma keys_run:
  "keys_inv s \<Longrightarrow> loads_settle_unmounted s es \<Longrightarrow> keys_inv (run s es)"
proof (induction es arbitrary: s)
  case Nil
  then show ?case by simp
next
  case (Cons e es)
  from Cons.prems(2) have a: "is_LoadSettled e \<Longrightarrow> table s = None"
    and b: "loads_settle_unmounted (step e s) es"
    by (simp_all split: if_splits)
  from Cons.prems(1) a have "keys_inv (step e s)" by (rule keys_step)
  from Cons.IH [OF this b] show ?case by simp
qed

lemma last_value_deselected:
  "selected_values fs c = Some [v] \<Longrightarrow>
   slicer_selection (selected_values fs c) (ToggleValue v) = Some []
   \<and> map_of (handleColumnFilterChange fs c []) c = None"
  by (simp add: handleColumnFilterChange_def handleValueToggle_def AList.delete_conv')

text \<open>
  Claim C8, as amended. In every state the page reaches, the filters of the table have
  distinct keys and each key maps to a list of values that is not empty: deselecting the
  last value of a column deletes its key. The \<^verbatim>\<open>filters\<close> parameter of a request is these
  filters, and it is omitted exactly when they are empty. Each key is a column of the
  loaded data as long as no load has settled while a table was mounted.
\<close>

theorem slicer_filters_well_formed:
  assumes "table (run App_init es) = Some t" and "app_data (run App_init es) = Some d"
  shows "distinct (map fst (filters t))
    \<and> (\<forall>(k, vs) \<in> set (filters t). vs \<noteq> [])
    \<and> (loads_settle_unmounted App_init es \<longrightarrow>
         (\<forall>(k, vs) \<in> set (filters t). k \<in> set (dr_columns d)))
    \<and> (selected_values (filters t) c = Some [v] \<longrightarrow>
         slicer_selection (selected_values (filters t) c) (ToggleValue v) = Some []
         \<and> map_of (handleColumnFilterChange (filters t) c []) c = None)
    \<and> q_filters (getFilteredData_query limit offset (filters t))
        = (if filters t = [] then None else Some (filters t))
    \<and> q_filters (export_query l off (Some (filters t)))
        = (if filters t = [] then None else Some (filters t))"
proof -
  have "holds constrained (table_filters (run App_init es))"
    by (rule constrained_run) (simp add: table_filters_def App_init_def)
  with assms(1) have c: "constrained (filters t)"
    by (simp add: table_filters_def)
  have k: "keys_among (dr_columns d) (filters t)" if "loads_settle_unmounted App_init es"
  proof -
    have "keys_inv App_init" by (simp add: keys_inv_def App_init_def)
    from keys_run [OF this that] assms show ?thesis
      by (simp add: keys_inv_def table_filters_def)
  qed
  from c have c1: "distinct (map fst (filters t))"
    and c2: "\<forall>(k, vs) \<in> set (filters t). vs \<noteq> []"
    by (auto simp: constrained_iff)
  have k1: "loads_settle_unmounted App_init es \<longrightarrow>
         (\<forall>(k, vs) \<in> set (filters t). k \<in> set (dr_columns d))"
  proof
    assume "loads_settle_unmounted App_init es"
    then have "\<forall>p \<in> set (filters t). fst p \<in> set (dr_columns d)"
      using k by (simp add: keys_among_iff)
    then show "\<forall>(k, vs) \<in> set (filters t). k \<in> set (dr_columns d)"
      by fastforce
  qed
  have q: "q_filters (getFilteredData_query limit offset (filters t))
        = (if filters t = [] then None else Some (filters t))"
    "q_filters (export_query l off (Some (filters t)))
        = (if filters t = [] then None else Some (filters t))"
    by (simp_all add: getFilteredData_query_def export_query_def filters_param_def)
  from c1 c2 k1 q last_value_deselected [of "filters t" c v] show ?thesis
    by blast
qed

theorem slicer_filters_well_formed_witness:
  "map_option filters (table (run App_init east_filtered)) = Some [(''region'', [''east''])]
   \<and> map_option dr_columns (app_data (run App_init east_filtered)) = Some [''region'', ''amount'']
   \<and> loads_settle_unmounted App_init east_filtered
   \<and> selected_values [(''region'', [''east''])] ''region'' = Some [''east'']
   \<and> slicer_selection (selected_values [(''region'', [''east''])] ''region'') (ToggleValue ''east'')
       = Some []
   \<and> map_of (handleColumnFilterChange [(''region'', [''east''])] ''region'' []) ''region'' = None
   \<and> q_filters (getFilteredData_query 100 0 [(''region'', [''east''])])
       = Some [(''region'', [''east''])]
   \<and> q_filters (export_query None (Some 0) (Some [(''region'', [''east''])]))
       = Some [(''region'', [''east''])]"
proof -
  let ?s = "run App_init east_filtered"
  have "table ?s \<noteq> None" by code_simp
  then obtain t where t: "table ?s = Some t" by auto
  have d: "app_data ?s = Some sales_data" by code_simp
  have f: "map_option filters (table ?s) = Some [(''region'', [''east''])]" by code_simp
  with t have ft: "filters t = [(''region'', [''east''])]" by simp
  have l: "loads_settle_unmounted App_init east_filtered" by code_simp
  have sv: "selected_values [(''region'', [''east''])] ''region'' = Some [''east'']"
    by (simp add: selected_values_def)
  from slicer_filters_well_formed [OF t d, of "''region''" "''east''" 100 0 None "Some 0"]
    f d l sv
  show ?thesis
    unfolding ft by (simp add: sales_data_def)
qed

text \<open>
  Claim C8 as stated fails: when a load settles under a mounted table, the table keeps
  its filters and the panel shows the slicers of the new columns. Selecting a value in
  one of them builds, and sends, filters with a key that is no column of the loaded data.
\<close>

theorem filter_key_outside_columns:
  "city_after_region = overlapping_loads @ [Slicer ''city'' (ToggleValue ''Oslo'')]
   \<and> map_option dr_columns (app_data (run App_init city_after_region)) = Some [''city'']
   \<and> map_option filters (table (run App_init city_after_region))
       = Some [(''region'', [''east'']), (''city'', [''Oslo''])]
   \<and> ''region'' \<notin> set [''city'']
   \<and> fr_filters (last (pending_fetches (run App_init city_after_region)))
       = [(''region'', [''east'']), (''city'', [''Oslo''])]
   \<and> q_filters (getFilteredData_query 100 0 [(''region'', [''east'']), (''city'', [''Oslo''])])
       = Some [(''region'', [''east'']), (''city'', [''Oslo''])]"
  by code_simp

end
